theory Spec2Isabelle
  imports Main "HOL-Library.Sublist"
begin

section \<open>Strings and dictionaries as the analyzer uses them\<close>

text \<open>
  A Python \<open>str\<close> is modelled as a \<open>string\<close> whose characters are the code points
  0..255 (ASCII and Latin-1); \<open>length\<close> counts code points as Python's \<open>len\<close> does.
  Code points above 255 are outside the model.

  A dictionary whose values are lists of strings is a map; \<open>d.get(k, [])\<close> is
  \<open>dict_get\<close>, and the truth value of \<open>d.get(k)\<close> (a missing key and an empty list
  are both false) is \<open>dict_truthy\<close>.
\<close>

type_synonym pydict = "string \<rightharpoonup> string list"

definition dict_get :: "pydict \<Rightarrow> string \<Rightarrow> string list" where
  "dict_get d k = (case d k of None \<Rightarrow> [] | Some v \<Rightarrow> v)"

definition dict_truthy :: "pydict \<Rightarrow> string \<Rightarrow> bool" where
  "dict_truthy d k = (case d k of None \<Rightarrow> False | Some v \<Rightarrow> v \<noteq> [])"

text \<open>\<open>str.lower()\<close> on the code points 0..255: A-Z and the Latin-1 capitals move up by 32.\<close>

definition lower_char :: "char \<Rightarrow> char" where
  "lower_char c =
     (let n = (of_char c :: nat)
      in if (65 \<le> n \<and> n \<le> 90) \<or> (192 \<le> n \<and> n \<le> 222 \<and> n \<noteq> 215)
         then char_of (n + 32) else c)"

definition lower :: "string \<Rightarrow> string" where
  "lower s = map lower_char s"

text \<open>\<open>sub in s\<close>: \<open>sub\<close> occurs in \<open>s\<close> as a contiguous substring.\<close>

fun str_in :: "string \<Rightarrow> string \<Rightarrow> bool" where
  "str_in sub [] = (sub = [])"
| "str_in sub (c # cs) = (prefix sub (c # cs) \<or> str_in sub cs)"

text \<open>
  \<open>s.count(sub)\<close>: the number of non-overlapping occurrences of \<open>sub\<close>, found from
  left to right; after a match the scan goes on behind it. For the empty \<open>sub\<close> Python
  answers \<open>len(s) + 1\<close>.
\<close>

fun str_count :: "string \<Rightarrow> string \<Rightarrow> nat" where
  "str_count sub [] = (if sub = [] then 1 else 0)"
| "str_count sub (c # cs) =
     (if sub = [] then Suc (str_count sub cs)
      else if prefix sub (c # cs) then Suc (str_count sub (drop (length sub - 1) cs))
      else str_count sub cs)"

section \<open>URL parsing\<close>

text \<open>
  The class \<open>[\w-]\<close> of the five patterns: \<open>\w\<close> (for a \<open>str\<close> pattern, Unicode
  letters, digits and the underscore; listed here for the code points 0..255) or a hyphen.
\<close>

definition is_word_char :: "char \<Rightarrow> bool" where
  "is_word_char c =
     (let n = (of_char c :: nat)
      in (48 \<le> n \<and> n \<le> 57) \<or> (65 \<le> n \<and> n \<le> 90) \<or> n = 95 \<or> (97 \<le> n \<and> n \<le> 122)
         \<or> n = 170 \<or> n = 178 \<or> n = 179 \<or> n = 181 \<or> n = 185 \<or> n = 186
         \<or> (188 \<le> n \<and> n \<le> 190) \<or> (192 \<le> n \<and> n \<le> 214)
         \<or> (216 \<le> n \<and> n \<le> 246) \<or> (248 \<le> n \<and> n \<le> 255))"

definition is_id_char :: "char \<Rightarrow> bool" where
  "is_id_char c = (is_word_char c \<or> c = CHR ''-'')"

text \<open>
  \<open>re.search(pattern, url)\<close> for a pattern of the shape \<open>(?:lit)([\w-]+)\<close>, where
  \<open>lit\<close> is the literal text the group \<open>(?:...)\<close> spells out. The search takes the
  leftmost position at which \<open>lit\<close> is followed by at least one character of the class;
  the greedy \<open>+\<close> makes group 1 the longest run of such characters there. The result is
  \<open>match.group(1)\<close>, or \<open>None\<close> without a match.
\<close>

fun re_search :: "string \<Rightarrow> string \<Rightarrow> string option" where
  "re_search lit [] = None"
| "re_search lit (c # cs) =
     (let group1 = takeWhile is_id_char (drop (length lit) (c # cs))
      in if prefix lit (c # cs) \<and> group1 \<noteq> [] then Some group1 else re_search lit cs)"

text \<open>The literal parts of the five patterns, in the order of the list in the source.\<close>

definition patterns :: "string list" where
  "patterns = [''youtube.com/watch?v='', ''youtu.be/'', ''youtube.com/embed/'',
               ''youtube.com/v/'', ''youtube.com/shorts/'']"

text \<open>The loop \<open>for pattern in patterns\<close>, returning at the first match.\<close>

fun first_match :: "string list \<Rightarrow> string \<Rightarrow> string option" where
  "first_match [] url = None"
| "first_match (pattern # rest) url =
     (case re_search pattern url of
        Some group1 \<Rightarrow> Some group1
      | None \<Rightarrow> first_match rest url)"

text \<open>\<open>VideoAnalyzer.extract_video_id\<close>.\<close>

definition extract_video_id :: "string \<Rightarrow> string option" where
  "extract_video_id url = first_match patterns url"

section \<open>Concept extraction\<close>

text \<open>
  The module constant \<open>TRADING_KEYWORDS\<close>: a dictionary from category name to keyword
  list, kept as an association list in the order of the source.
\<close>

definition TRADING_KEYWORDS :: "(string \<times> string list) list" where
  "TRADING_KEYWORDS =
    [(''indicators'',
       [''rsi'', ''relative strength'', ''macd'', ''moving average'', ''ema'', ''sma'', ''wma'',
        ''bollinger bands'', ''bollinger'', ''stochastic'', ''volume'', ''atr'', ''average true range'',
        ''adx'', ''ichimoku'', ''fibonacci'', ''fib'', ''pivot points'', ''support'', ''resistance'',
        ''vwap'', ''momentum'', ''cci'', ''commodity channel'', ''williams'', ''obv'', ''on balance'',
        ''keltner'', ''donchian'', ''parabolic sar'', ''supertrend'', ''heikin ashi'']),
     (''patterns'',
       [''breakout'', ''trend'', ''reversal'', ''divergence'', ''convergence'', ''bullish divergence'',
        ''bearish divergence'', ''hidden divergence'', ''cross'', ''crossover'', ''crossunder'',
        ''golden cross'', ''death cross'', ''squeeze'', ''flag'', ''pennant'', ''triangle'',
        ''head and shoulders'', ''double top'', ''double bottom'', ''cup and handle'',
        ''wedge'', ''channel'', ''range'', ''consolidation'', ''pullback'', ''retracement'']),
     (''strategies'',
       [''scalping'', ''day trading'', ''swing trading'', ''position trading'',
        ''mean reversion'', ''trend following'', ''momentum trading'', ''breakout trading'',
        ''range trading'', ''grid trading'', ''martingale'', ''dca'', ''dollar cost averaging'',
        ''smart money'', ''order block'', ''fair value gap'', ''fvg'', ''liquidity'']),
     (''conditions'',
       [''entry'', ''exit'', ''stop loss'', ''take profit'', ''risk management'',
        ''position sizing'', ''trailing stop'', ''break even'', ''signal'', ''alert'',
        ''confirmation'', ''filter'', ''trigger'', ''buy signal'', ''sell signal'',
        ''long'', ''short'', ''close position'', ''partial profit'']),
     (''timeframes'',
       [''1 minute'', ''5 minute'', ''15 minute'', ''30 minute'', ''1 hour'', ''4 hour'',
        ''daily'', ''weekly'', ''monthly'', ''multi timeframe'', ''mtf'', ''higher timeframe'',
        ''lower timeframe'', ''htf'', ''ltf'', ''m1'', ''m5'', ''m15'', ''m30'', ''h1'', ''h4'', ''d1''])]"

text \<open>
  \<open>VideoAnalyzer.extract_key_concepts\<close>, the category part. The first loop appends
  \<open>{'term': keyword, 'count': count}\<close> for each keyword of the category that occurs in
  the lowercased text (\<open>found_concepts\<close>). The second loop sorts by \<open>-count\<close>
  (Python's \<open>sorted\<close> is stable, as \<open>sort_key\<close> is), keeps the first occurrence of every
  term through the \<open>seen\<close> set (\<open>unique_terms\<close>) and cuts the list to ten.
  The entry \<open>specific_values\<close> (numbers found by regular expressions and de-duplicated
  through a Python set, whose iteration order is not fixed) is not part of this model:
  it does not influence the category lists.
\<close>

definition found_concepts :: "string list \<Rightarrow> string \<Rightarrow> (string \<times> nat) list" where
  "found_concepts keywords text_lower =
     map (\<lambda>keyword. (keyword, str_count keyword text_lower))
       (filter (\<lambda>keyword. str_in keyword text_lower) keywords)"

fun unique_terms :: "string list \<Rightarrow> (string \<times> nat) list \<Rightarrow> string list" where
  "unique_terms seen [] = []"
| "unique_terms seen (item # items) =
     (if fst item \<notin> set seen then fst item # unique_terms (fst item # seen) items
      else unique_terms seen items)"

definition rank_terms :: "(string \<times> nat) list \<Rightarrow> string list" where
  "rank_terms found = take 10 (unique_terms [] (sort_key (\<lambda>item. - int (snd item)) found))"

definition extract_key_concepts :: "string \<Rightarrow> pydict" where
  "extract_key_concepts text =
     (let text_lower = lower text
      in map_of (map (\<lambda>(category, keywords). (category, rank_terms (found_concepts keywords text_lower)))
                   TRADING_KEYWORDS))"

text \<open>
  The order of the ranked list. The first loop keeps the order of the keyword list and
  the sort is stable, so a found keyword ranks before another when it occurs more often,
  or as often and stands earlier in the keyword list of the category.
\<close>

definition ranks_before :: "string list \<Rightarrow> string \<Rightarrow> string \<Rightarrow> string \<Rightarrow> bool" where
  "ranks_before keywords text_lower other keyword =
     (str_count keyword text_lower < str_count other text_lower
      \<or> (str_count other text_lower = str_count keyword text_lower
          \<and> other \<in> set (takeWhile (\<lambda>k. k \<noteq> keyword) keywords)))"

section \<open>Strategy components\<close>

text \<open>
  \<open>str.strip()\<close> removes leading and trailing whitespace; among the code points 0..255
  Python counts as whitespace 9..13, 28..32, 133 and 160.
\<close>

definition is_space :: "char \<Rightarrow> bool" where
  "is_space c =
     (let n = (of_char c :: nat)
      in (9 \<le> n \<and> n \<le> 13) \<or> (28 \<le> n \<and> n \<le> 32) \<or> n = 133 \<or> n = 160)"

definition strip :: "string \<Rightarrow> string" where
  "strip s = rev (dropWhile is_space (rev (dropWhile is_space s)))"

text \<open>
  \<open>re.split(r'[.!?]', text)\<close>: the text is cut at every full stop, exclamation mark
  and question mark; \<open>n\<close> separators give \<open>n + 1\<close> pieces, empty ones included.
\<close>

definition is_sentence_end :: "char \<Rightarrow> bool" where
  "is_sentence_end c = (c = CHR ''.'' \<or> c = CHR ''!'' \<or> c = CHR ''?'')"

fun split_sentences :: "string \<Rightarrow> string list" where
  "split_sentences [] = [[]]"
| "split_sentences (c # cs) =
     (if is_sentence_end c then [] # split_sentences cs
      else (case split_sentences cs of
              [] \<Rightarrow> [[c]]
            | s # ss \<Rightarrow> (c # s) # ss))"

text \<open>
  \<open>components[key].append(sentence)\<close>. The four keys the loop appends to are in the
  dictionary from the start, so Python's KeyError for a missing key cannot occur there;
  the model leaves a dictionary without the key as it is.
\<close>

definition dict_append :: "pydict \<Rightarrow> string \<Rightarrow> string \<Rightarrow> pydict" where
  "dict_append d k v = (case d k of None \<Rightarrow> d | Some xs \<Rightarrow> d(k \<mapsto> xs @ [v]))"

definition empty_components :: pydict where
  "empty_components =
     map_of [(''entry_conditions'', []), (''exit_conditions'', []), (''risk_management'', []),
             (''indicators_mentioned'', []), (''timeframes'', []), (''market_conditions'', []),
             (''key_rules'', [])]"

definition entry_keywords :: "string list" where
  "entry_keywords = [''enter'', ''buy'', ''long'', ''entry'', ''go long'', ''open'', ''get in'']"

definition exit_keywords :: "string list" where
  "exit_keywords = [''exit'', ''sell'', ''close'', ''take profit'', ''stop loss'', ''get out'', ''short'']"

definition risk_keywords :: "string list" where
  "risk_keywords = [''risk'', ''position size'', ''money management'', ''drawdown'', ''stop'', ''loss'']"

definition rule_keywords :: "string list" where
  "rule_keywords = [''always'', ''never'', ''must'', ''important'', ''rule'', ''key'']"

text \<open>\<open>any(word in s for word in words)\<close>.\<close>

definition any_in :: "string list \<Rightarrow> string \<Rightarrow> bool" where
  "any_in words s = list_ex (\<lambda>word. str_in word s) words"

text \<open>The body of the loop over the sentences of \<open>identify_strategy_components\<close>.\<close>

definition sentence_step :: "pydict \<Rightarrow> string \<Rightarrow> pydict" where
  "sentence_step components raw =
     (let sentence = strip raw
      in if length sentence < 10 then components
         else
           let sentence_lower = lower sentence;
               components =
                 (if any_in entry_keywords sentence_lower
                     \<and> (str_in ''when'' sentence_lower \<or> str_in ''if'' sentence_lower
                          \<or> str_in ''once'' sentence_lower)
                  then dict_append components ''entry_conditions'' sentence else components);
               components =
                 (if any_in exit_keywords sentence_lower
                     \<and> (str_in ''when'' sentence_lower \<or> str_in ''if'' sentence_lower
                          \<or> str_in ''at'' sentence_lower)
                  then dict_append components ''exit_conditions'' sentence else components);
               components =
                 (if any_in risk_keywords sentence_lower
                  then dict_append components ''risk_management'' sentence else components);
               components =
                 (if any_in rule_keywords sentence_lower
                  then dict_append components ''key_rules'' sentence else components)
           in components)"

text \<open>
  \<open>VideoAnalyzer.identify_strategy_components\<close>: the loop over the sentences, then every
  list of the dictionary is cut to its first five entries.
\<close>

definition identify_strategy_components :: "string \<Rightarrow> pydict" where
  "identify_strategy_components text =
     (let components = foldl sentence_step empty_components (split_sentences text)
      in (\<lambda>key. map_option (take 5) (components key)))"

text \<open>
  The invariant of that loop, relative to a set \<open>A\<close> of raw sentences: every entry of
  every list is the stripped form of a sentence of \<open>A\<close> and has at least 10 characters.
\<close>

definition entries_ok :: "string set \<Rightarrow> pydict \<Rightarrow> bool" where
  "entries_ok A d = (\<forall>k v. d k = Some v \<longrightarrow> (\<forall>e \<in> set v. e \<in> strip ` A \<and> 10 \<le> length e))"

section \<open>Complexity score and feasibility\<close>

text \<open>\<open>VideoAnalyzer._calculate_complexity\<close>.\<close>

definition calculate_complexity :: "pydict \<Rightarrow> pydict \<Rightarrow> int" where
  "calculate_complexity concepts components =
     (let score = 1;
          score = score + min (int (length (dict_get concepts ''indicators''))) 3;
          score = score + min (int (length (dict_get concepts ''patterns''))) 2;
          score = score + (if dict_truthy components ''entry_conditions'' then 1 else 0);
          score = score + (if dict_truthy components ''exit_conditions'' then 1 else 0);
          score = score + (if dict_truthy components ''risk_management'' then 1 else 0);
          score = score + (if length (dict_get concepts ''timeframes'') > 1 then 1 else 0)
      in min score 10)"

text \<open>\<open>VideoAnalyzer._assess_feasibility\<close>.\<close>

record feasibility =
  overall :: string
  issues :: "string list"
  pine_script_compatible :: bool

definition problematic :: "string list" where
  "problematic = [''machine learning'', ''neural network'', ''ai'', ''sentiment'', ''news'']"

definition term_issue :: "string \<Rightarrow> string" where
  "term_issue t = [CHR 0x27] @ t @ [CHR 0x27] @ '' may require external data or complex implementation''"

definition assess_feasibility :: "pydict \<Rightarrow> pydict \<Rightarrow> feasibility" where
  "assess_feasibility concepts components =
     (let issues1 = map term_issue
            (filter (\<lambda>t. list_ex (\<lambda>p. str_in p (lower t)) problematic)
               (dict_get concepts ''strategies'' @ dict_get concepts ''indicators''));
          issues2 = (if length (dict_get concepts ''indicators'') > 5
                     then issues1 @ [''Many indicators - may need to optimize for performance'']
                     else issues1)
      in \<lparr> overall = (if issues2 = [] then ''full'' else ''partial''),
           issues = issues2,
           pine_script_compatible = (length issues2 = 0) \<rparr>)"

section \<open>Specification generation\<close>

text \<open>
  The metadata dictionary. A value is a string or Python's \<open>None\<close>: \<open>yt_dlp\<close>'s info
  dictionary can hold a key with the value \<open>None\<close>, and \<open>info.get(key, default)\<close>
  passes it through. (\<open>duration\<close>, \<open>view_count\<close> and \<open>like_count\<close> are numbers and
  are not read by the functions modelled here.)
\<close>

datatype pyval = PyNone | Str string

type_synonym metadata = "string \<rightharpoonup> pyval"

definition meta_get :: "metadata \<Rightarrow> string \<Rightarrow> pyval \<Rightarrow> pyval" where
  "meta_get m k dflt = (case m k of None \<Rightarrow> dflt | Some v \<Rightarrow> v)"

record video_info =
  info_title :: pyval
  info_author :: pyval
  info_duration :: pyval
  info_url :: pyval
  info_transcript_source :: string

text \<open>
  The specification dictionary. Two entries are left out: \<open>analyzed_at\<close> (the wall
  clock) and \<open>parameters\<close> (the \<open>specific_values\<close> of the concepts). The entries
  \<open>video_info\<close>, \<open>patterns\<close>, \<open>timeframes\<close> and \<open>feasibility\<close> are the fields
  \<open>spec_video_info\<close>, \<open>spec_patterns\<close>, \<open>spec_timeframes\<close> and \<open>spec_feasibility\<close>;
  the nested \<open>implementation\<close> dictionary is flattened into its four entries.
\<close>

record pine_spec =
  spec_video_info :: video_info
  script_type :: string
  complexity_score :: int
  main_indicators :: "string list"
  spec_patterns :: "string list"
  strategy_style :: string
  spec_timeframes :: "string list"
  entry_logic :: "string list"
  exit_logic :: "string list"
  risk_rules :: "string list"
  key_rules :: "string list"
  spec_feasibility :: feasibility
  suggested_features :: "string list"

text \<open>\<open>VideoAnalyzer._suggest_features\<close>.\<close>

definition suggest_features :: "pydict \<Rightarrow> pydict \<Rightarrow> string \<Rightarrow> string list" where
  "suggest_features concepts components stype =
     (let suggestions =
            (if stype = ''strategy''
             then (if \<not> dict_truthy components ''risk_management''
                   then [''Add position sizing and risk management''] else [])
                  @ [''Include backtesting performance table'', ''Add alert conditions for signals'']
             else [''Add visual signal markers'', ''Include info panel with current values'']);
          suggestions =
            (if dict_truthy concepts ''timeframes'' \<and> length (dict_get concepts ''timeframes'') > 1
             then suggestions @ [''Implement multi-timeframe analysis''] else suggestions);
          suggestions = suggestions @ [''Add input groups with tooltips'', ''Include debug mode toggle'']
      in take 5 suggestions)"

text \<open>
  \<open>VideoAnalyzer.generate_pine_script_spec\<close>; the local \<open>script_type\<close> of the source
  is \<open>stype\<close> here, the name being taken by the field of the record.
\<close>

definition generate_pine_script_spec :: "pydict \<Rightarrow> pydict \<Rightarrow> metadata \<Rightarrow> string \<Rightarrow> pine_spec" where
  "generate_pine_script_spec concepts components metadata source =
     (let has_entry_exit = (dict_truthy components ''entry_conditions''
                            \<or> dict_truthy components ''exit_conditions'');
          stype = (if has_entry_exit then ''strategy'' else ''indicator'');
          complexity = calculate_complexity concepts components
      in \<lparr> spec_video_info =
             \<lparr> info_title = meta_get metadata ''title'' (Str ''Unknown''),
               info_author = meta_get metadata ''author'' (Str ''Unknown''),
               info_duration = meta_get metadata ''duration_string'' (Str ''Unknown''),
               info_url = meta_get metadata ''url'' (Str []),
               info_transcript_source = source \<rparr>,
           script_type = stype,
           complexity_score = complexity,
           main_indicators = take 5 (dict_get concepts ''indicators''),
           spec_patterns = take 5 (dict_get concepts ''patterns''),
           strategy_style = (case dict_get concepts ''strategies'' of
                               [] \<Rightarrow> ''custom'' | s # _ \<Rightarrow> s),
           spec_timeframes = take 3 (dict_get concepts ''timeframes''),
           entry_logic = dict_get components ''entry_conditions'',
           exit_logic = dict_get components ''exit_conditions'',
           risk_rules = dict_get components ''risk_management'',
           key_rules = dict_get components ''key_rules'',
           spec_feasibility = assess_feasibility concepts components,
           suggested_features = suggest_features concepts components stype \<rparr>)"

section \<open>Transcript acquisition\<close>

text \<open>
  The outside world is a parameter of the model. What the libraries answer is an
  \<open>env\<close>: \<open>YouTubeTranscriptApi().list\<close> (a list of caption tracks, or one of the
  exceptions the source catches), \<open>find_transcript\<close> of the track list (\<open>None\<close> when
  it raises), the three \<open>re.sub\<close> clean-ups with the final \<open>strip\<close> (\<open>clean_text\<close>), the
  outcome of the Whisper download and transcription, \<open>yt_dlp\<close>'s \<open>extract_info\<close>, the
  time stamp of the report file name, which file operations raise, and whether
  \<open>print\<close> raises.

  The messages the analyzer prints hold emoji, so on a standard output that cannot
  encode them (or that is closed) \<open>print\<close> raises. The standard output is taken to be
  the same for a whole run: \<open>stdout_fails\<close> says that every \<open>print\<close> raises. The first
  statement of \<open>analyze\<close> is such a \<open>print\<close>, outside any \<open>try\<close>; the functions below
  \<open>analyze\<close> are therefore modelled with a \<open>print\<close> that succeeds, which is the only
  way \<open>analyze\<close> reaches them. Interrupts and exhausted memory are outside the model.
\<close>

datatype yt_error = TranscriptsDisabled | NoTranscriptFound | VideoUnavailable | OtherException string

record track =
  language_code :: string
  is_generated :: bool
  fetch :: "yt_error + string list"

datatype whisper_outcome = WhisperText string | DownloadFailed | WhisperFailed string

datatype file_op = ReadCache string | WriteCache string | SaveAnalysis string

datatype exn = OSError file_op | StdoutError | TypeError

record env =
  api_list :: "string \<Rightarrow> yt_error + track list"
  find_transcript :: "track list \<Rightarrow> track option"
  clean_text :: "string \<Rightarrow> string"
  run_whisper :: "string \<Rightarrow> whisper_outcome"
  extract_info :: "string \<Rightarrow> string + metadata"
  timestamp :: string
  io_fails :: "file_op \<Rightarrow> bool"
  stdout_fails :: bool

text \<open>
  The state the analyzer changes is the transcript cache, one file per video identifier
  holding \<open>{text, source}\<close>. The \<open>trace\<close> is the model's record of what a run did: the
  calls that go to the network (\<open>ListCaptions\<close>, \<open>FetchCaptions\<close>, \<open>RunWhisper\<close>) and
  the acquisition methods it tried (\<open>TryManual\<close>, \<open>TryAuto\<close>, \<open>TryAnyEnglish\<close>,
  \<open>RunWhisper\<close>), in order.
\<close>

datatype event = ListCaptions | TryManual | TryAuto | TryAnyEnglish | FetchCaptions | RunWhisper

record world =
  cache :: "string \<rightharpoonup> string \<times> string"
  trace :: "event list"

definition log_event :: "event \<Rightarrow> world \<Rightarrow> world" where
  "log_event e w = w\<lparr>trace := trace w @ [e]\<rparr>"

fun is_method :: "event \<Rightarrow> bool" where
  "is_method TryManual = True"
| "is_method TryAuto = True"
| "is_method TryAnyEnglish = True"
| "is_method RunWhisper = True"
| "is_method _ = False"

definition methods_of :: "event list \<Rightarrow> event list" where
  "methods_of events = filter is_method events"

text \<open>The \<open>except\<close> clauses of \<open>get_transcript_from_youtube\<close>: the tag returned for an exception.\<close>

fun error_tag :: "yt_error \<Rightarrow> string" where
  "error_tag TranscriptsDisabled = ''disabled''"
| "error_tag NoTranscriptFound = ''not_found''"
| "error_tag VideoUnavailable = ''unavailable''"
| "error_tag (OtherException e) = ''error: '' @ e"

definition english :: "string list" where
  "english = [''en'', ''en-US'', ''en-GB'']"

text \<open>\<open>' '.join(parts)\<close>.\<close>

fun join_space :: "string list \<Rightarrow> string" where
  "join_space [] = []"
| "join_space [part] = part"
| "join_space (part # parts) = part @ '' '' @ join_space parts"

text \<open>The truth value of an \<open>Optional[str]\<close>: \<open>None\<close> and the empty string are false.\<close>

fun truthy :: "string option \<Rightarrow> bool" where
  "truthy None = False"
| "truthy (Some s) = (s \<noteq> [])"

text \<open>
  \<open>transcript.fetch()\<close> with the joining and cleaning of the text that follows it; an
  exception of the fetch is caught by the \<open>except\<close> clauses of the function.
\<close>

definition fetch_text :: "env \<Rightarrow> track \<Rightarrow> string \<Rightarrow> world \<Rightarrow> (string option \<times> string) \<times> world" where
  "fetch_text e t source w =
     (case fetch t of
        Inl err \<Rightarrow> ((None, error_tag err), log_event FetchCaptions w)
      | Inr parts \<Rightarrow> ((Some (clean_text e (join_space parts)), source), log_event FetchCaptions w))"

text \<open>\<open>VideoAnalyzer.get_transcript_from_youtube\<close>.\<close>

definition get_transcript_from_youtube :: "env \<Rightarrow> string \<Rightarrow> world \<Rightarrow> (string option \<times> string) \<times> world" where
  "get_transcript_from_youtube e video_id w =
     (let w = log_event ListCaptions w
      in case api_list e video_id of
           Inl err \<Rightarrow> ((None, error_tag err), w)
         | Inr transcript_list \<Rightarrow>
             (let w = log_event TryManual w
              in case find (\<lambda>t. language_code t \<in> set english \<and> \<not> is_generated t) transcript_list of
                   Some t \<Rightarrow> fetch_text e t ''manual_captions'' w
                 | None \<Rightarrow>
                     (let w = log_event TryAuto w
                      in case find (\<lambda>t. language_code t \<in> set english \<and> is_generated t) transcript_list of
                           Some t \<Rightarrow> fetch_text e t ''auto_captions'' w
                         | None \<Rightarrow>
                             (let w = log_event TryAnyEnglish w
                              in case find_transcript e transcript_list of
                                   Some t \<Rightarrow> fetch_text e t ''english_captions'' w
                                 | None \<Rightarrow> ((None, ''no_captions''), w)))))"

text \<open>\<open>VideoAnalyzer.get_transcript_from_whisper\<close>: everything in it is library work.\<close>

definition get_transcript_from_whisper :: "env \<Rightarrow> string \<Rightarrow> world \<Rightarrow> (string option \<times> string) \<times> world" where
  "get_transcript_from_whisper e url w =
     (case run_whisper e url of
        WhisperText t \<Rightarrow> ((Some t, ''whisper''), log_event RunWhisper w)
      | DownloadFailed \<Rightarrow> ((None, ''download_failed''), log_event RunWhisper w)
      | WhisperFailed err \<Rightarrow> ((None, ''whisper_error: '' @ err), log_event RunWhisper w))"

text \<open>
  Writing the cache file and returning the transcript. The \<open>open\<close> is not inside a
  \<open>try\<close>: when it raises, the exception leaves \<open>get_transcript\<close>. (The model then
  leaves the cache as it was.)
\<close>

fun cache_and_return ::
  "env \<Rightarrow> string \<Rightarrow> string option \<times> string \<Rightarrow> world \<Rightarrow> (exn + string option \<times> string) \<times> world" where
  "cache_and_return e video_id (Some transcript, source) w =
     (if io_fails e (WriteCache video_id) then (Inl (OSError (WriteCache video_id)), w)
      else (Inr (Some transcript, source),
            w\<lparr>cache := (cache w)(video_id \<mapsto> (transcript, source))\<rparr>))"
| "cache_and_return e video_id (None, source) w = (Inr (None, source), w)"

text \<open>\<open>VideoAnalyzer.get_transcript\<close>; \<open>use_whisper\<close> is the field of the analyzer object.\<close>

definition get_transcript ::
  "env \<Rightarrow> bool \<Rightarrow> string \<Rightarrow> string \<Rightarrow> world \<Rightarrow> (exn + string option \<times> string) \<times> world" where
  "get_transcript e use_whisper url video_id w =
     (case cache w video_id of
        Some (text, source) \<Rightarrow>
          (if io_fails e (ReadCache video_id) then (Inl (OSError (ReadCache video_id)), w)
           else (Inr (Some text, source @ ''_cached''), w))
      | None \<Rightarrow>
          (let (captions, w1) = (if \<not> use_whisper then get_transcript_from_youtube e video_id w
                                 else ((None, []), w))
           in if \<not> use_whisper \<and> truthy (fst captions) then cache_and_return e video_id captions w1
              else
                (let (spoken, w2) = get_transcript_from_whisper e url w1
                 in if truthy (fst spoken) then cache_and_return e video_id spoken w2
                    else (Inr spoken, w2))))"

text \<open>
  The caption methods a run reaches when it lists the tracks: none when the listing
  raises, and otherwise the chain up to the first kind of track that exists.
\<close>

definition caption_methods :: "env \<Rightarrow> string \<Rightarrow> event list" where
  "caption_methods e video_id =
     (case api_list e video_id of
        Inl err \<Rightarrow> []
      | Inr transcript_list \<Rightarrow>
          (if list_ex (\<lambda>t. language_code t \<in> set english \<and> \<not> is_generated t) transcript_list
           then [TryManual]
           else if list_ex (\<lambda>t. language_code t \<in> set english \<and> is_generated t) transcript_list
           then [TryManual, TryAuto]
           else [TryManual, TryAuto, TryAnyEnglish]))"

section \<open>The pipeline and the command line\<close>

text \<open>
  \<open>VideoAnalyzer.get_video_metadata\<close>: the \<open>try\<close> turns every exception of
  \<open>extract_info\<close> into the dictionary with the \<open>error\<close> entry. The description is
  \<open>(info.get('description', '') or '')[:1000]\<close>, where \<open>or\<close> replaces \<open>None\<close>.
\<close>

definition description_of :: "metadata \<Rightarrow> string" where
  "description_of info =
     (case info ''description'' of
        Some (Str d) \<Rightarrow> take 1000 d
      | _ \<Rightarrow> [])"

definition get_video_metadata :: "env \<Rightarrow> string \<Rightarrow> metadata" where
  "get_video_metadata e url =
     (case extract_info e url of
        Inr info \<Rightarrow>
          map_of [(''title'', meta_get info ''title'' (Str ''Unknown'')),
                  (''author'', meta_get info ''uploader'' (Str ''Unknown'')),
                  (''channel_url'', meta_get info ''uploader_url'' (Str [])),
                  (''duration_string'', meta_get info ''duration_string'' (Str ''Unknown'')),
                  (''description'', Str (description_of info)),
                  (''upload_date'', meta_get info ''upload_date'' (Str ''Unknown'')),
                  (''thumbnail'', meta_get info ''thumbnail'' (Str []))]
      | Inl err \<Rightarrow>
          map_of [(''title'', Str ''Unknown''), (''author'', Str ''Unknown''), (''error'', Str err)])"

text \<open>
  The text of \<open>metadata['error']\<close> in \<open>f"Could not access video: {metadata['error']}"\<close>;
  in the branch that formats it the entry is the string \<open>str(e)\<close>.
\<close>

definition error_text :: "metadata \<Rightarrow> string" where
  "error_text m = (case m ''error'' of Some (Str err) \<Rightarrow> err | _ \<Rightarrow> ''None'')"

text \<open>
  The dictionary \<open>analyze\<close> returns. The entry \<open>summary\<close> (the text template of
  \<open>create_summary\<close>) is left out; an entry that a result does not have is \<open>None\<close>.
\<close>

record analysis =
  success :: bool
  error :: "string option"
  failure_metadata :: "metadata option"
  result_video_id :: "string option"
  result_spec :: "pine_spec option"
  result_concepts :: "pydict option"
  result_components :: "pydict option"
  transcript_length :: "nat option"
  transcript_preview :: "string option"
  saved_to :: "string option"

definition failure :: "string \<Rightarrow> metadata option \<Rightarrow> analysis" where
  "failure message m =
     \<lparr> success = False, error = Some message, failure_metadata = m,
       result_video_id = None, result_spec = None, result_concepts = None,
       result_components = None, transcript_length = None, transcript_preview = None,
       saved_to = None \<rparr>"

text \<open>
  \<open>VideoAnalyzer.analyze\<close>. Three kinds of exception leave it, none of them inside a
  \<open>try\<close>: the first \<open>print\<close> on a standard output that fails; the slice
  \<open>metadata['title'][:50]\<close> of the title line when the title is \<open>None\<close>; and an
  error of the cache file (in \<open>get_transcript\<close>) or of the report file (in
  \<open>save_analysis\<close>). The result is then \<open>Inl\<close>.
\<close>

definition analyze :: "env \<Rightarrow> bool \<Rightarrow> string \<Rightarrow> world \<Rightarrow> (exn + analysis) \<times> world" where
  "analyze e use_whisper url w =
     (if stdout_fails e then (Inl StdoutError, w)
      else
        case extract_video_id url of
          None \<Rightarrow> (Inr (failure ''Invalid YouTube URL'' None), w)
        | Some video_id \<Rightarrow>
            if video_id = [] then (Inr (failure ''Invalid YouTube URL'' None), w)
            else
              (let metadata = (get_video_metadata e url)(''url'' \<mapsto> Str url)
               in if metadata ''error'' \<noteq> None \<and> metadata ''title'' = Some (Str ''Unknown'') then
                    (Inr (failure (''Could not access video: '' @ error_text metadata) None), w)
                  else if metadata ''title'' = Some PyNone then (Inl TypeError, w)
                  else
                    (case get_transcript e use_whisper url video_id w of
                       (Inl x, w1) \<Rightarrow> (Inl x, w1)
                     | (Inr (transcript, source), w1) \<Rightarrow>
                         (case transcript of
                            None \<Rightarrow>
                              (Inr (failure (''Could not get transcript ('' @ source
                                               @ ''). Try with --whisper flag.'') (Some metadata)), w1)
                          | Some text \<Rightarrow>
                              if text = [] then
                                (Inr (failure (''Could not get transcript ('' @ source
                                                 @ ''). Try with --whisper flag.'') (Some metadata)), w1)
                              else
                                (let concepts = extract_key_concepts text;
                                     components = identify_strategy_components text;
                                     spec = generate_pine_script_spec concepts components metadata source;
                                     filepath = ''projects/analysis/analysis_'' @ video_id @ ''_''
                                                @ timestamp e @ ''.json''
                                 in if io_fails e (SaveAnalysis video_id)
                                    then (Inl (OSError (SaveAnalysis video_id)), w1)
                                    else
                                      (Inr \<lparr> success = True, error = None, failure_metadata = None,
                                             result_video_id = Some video_id,
                                             result_spec = Some spec,
                                             result_concepts = Some concepts,
                                             result_components = Some components,
                                             transcript_length = Some (length text),
                                             transcript_preview =
                                               Some (if length text > 500 then take 500 text @ ''...''
                                                     else text),
                                             saved_to = Some filepath \<rparr>, w1))))))"

text \<open>
  The command line: \<open>main\<close> either returns (exit code 0), or leaves through
  \<open>sys.exit(1)\<close>, or lets an exception of \<open>analyze\<close> through; the handler under
  \<open>__main__\<close> turns such an exception into exit code 1. (\<open>json.dumps\<close> escapes what
  is not ASCII, so the \<open>print\<close> of the JSON branch succeeds where that of \<open>analyze\<close>
  did.)
\<close>

record args =
  arg_url :: string
  arg_whisper :: bool
  arg_model :: string
  arg_json :: bool

definition main :: "env \<Rightarrow> args \<Rightarrow> world \<Rightarrow> exn + nat" where
  "main e a w =
     (case fst (analyze e (arg_whisper a) (arg_url a) w) of
        Inl x \<Rightarrow> Inl x
      | Inr result \<Rightarrow>
          if arg_json a then Inr 0
          else if success result then Inr 0
          else Inr 1)"

definition exit_code :: "env \<Rightarrow> args \<Rightarrow> world \<Rightarrow> nat" where
  "exit_code e a w = (case main e a w of Inl x \<Rightarrow> 1 | Inr code \<Rightarrow> code)"

section \<open>Concrete inputs\<close>

definition text11 :: string where
  "text11 = ''RSI macd ema sma wma bollinger stochastic volume atr adx ichimoku''"

definition text_both :: string where
  "text_both = ''Buy when price is up. Sell when price is down! ok''"

definition text_none :: string where
  "text_none = ''Charts are pretty. We look for trends in them''"

definition url_short :: string where
  "url_short = ''https://youtu.be/dQw4w9WgXcQ?t=5''"

definition url_other :: string where
  "url_other = ''https://vimeo.com/12345''"

definition url_two_shapes :: string where
  "url_two_shapes = ''https://youtu.be/abc123?next=youtube.com/watch?v=xyz789''"

definition world0 :: world where
  "world0 = \<lparr> cache = Map.empty, trace = [] \<rparr>"

text \<open>A video with manual English captions; every file operation succeeds.\<close>

definition env_manual :: env where
  "env_manual =
     \<lparr> api_list = (\<lambda>v. Inr [\<lparr> language_code = ''en'', is_generated = False,
                                fetch = Inr [''Buy when price is up.'', ''Sell when price is down.''] \<rparr>]),
       find_transcript = (\<lambda>ts. None),
       clean_text = (\<lambda>s. s),
       run_whisper = (\<lambda>u. WhisperText ''Buy the dip when it comes.''),
       extract_info = (\<lambda>u. Inr (map_of [(''title'', Str ''A strategy''), (''uploader'', Str ''Trader'')])),
       timestamp = ''20240101_000000'',
       io_fails = (\<lambda>f. False),
       stdout_fails = False \<rparr>"

text \<open>A video without captions whose audio cannot be downloaded.\<close>

definition env_silent :: env where
  "env_silent = env_manual \<lparr> api_list := (\<lambda>v. Inl TranscriptsDisabled),
                              run_whisper := (\<lambda>u. DownloadFailed) \<rparr>"

text \<open>The same video as \<open>env_manual\<close>, with a report directory that cannot be written.\<close>

definition env_readonly :: env where
  "env_readonly = env_manual \<lparr> io_fails := (\<lambda>f. case f of SaveAnalysis v \<Rightarrow> True | _ \<Rightarrow> False) \<rparr>"

definition args_json_invalid :: args where
  "args_json_invalid = \<lparr> arg_url = ''not a video'', arg_whisper = False, arg_model = ''base'',
                          arg_json = True \<rparr>"

text \<open>The same video, with a title that the info dictionary holds as \<open>None\<close>.\<close>

definition env_untitled :: env where
  "env_untitled = env_manual \<lparr> extract_info := (\<lambda>u. Inr (map_of [(''title'', PyNone)])) \<rparr>"

text \<open>The same video, on a standard output that cannot encode the messages.\<close>

definition env_ascii :: env where
  "env_ascii = env_manual \<lparr> stdout_fails := True \<rparr>"

text \<open>Eleven indicator keywords, the last of them three times.\<close>

definition text11_thrice :: string where
  "text11_thrice = ''RSI macd ema sma wma bollinger stochastic volume atr adx ichimoku Ichimoku ICHIMOKU''"

section \<open>Properties\<close>

subsection \<open>URL parsing\<close>

text \<open>
  What \<open>re_search\<close> finds is a match of the pattern in the usual sense: the literal,
  then a non-empty run of class characters that cannot be extended; and where the url
  holds the literal followed by a class character, \<open>re_search\<close> finds a match.
\<close>

lemma re_search_sound:
  "re_search lit url = Some g \<Longrightarrow>
     \<exists>pre post. url = pre @ lit @ g @ post \<and> g \<noteq> [] \<and> (\<forall>c \<in> set g. is_id_char c)
        \<and> (post = [] \<or> \<not> is_id_char (hd post))"
proof (induction url)
  case Nil
  then show ?case by simp
next
  case (Cons c cs)
  let ?rest = "drop (length lit) (c # cs)"
  show ?case
  proof (cases "prefix lit (c # cs) \<and> takeWhile is_id_char ?rest \<noteq> []")
    case True
    with Cons.prems have g: "g = takeWhile is_id_char ?rest"
      by (simp add: Let_def)
    from True have "c # cs = lit @ ?rest"
      by (metis append_take_drop_id prefix_def append_eq_conv_conj)
    then have "c # cs = [] @ lit @ g @ dropWhile is_id_char ?rest"
      using g by simp
    moreover have "\<forall>c \<in> set g. is_id_char c"
      using g by (auto dest: set_takeWhileD)
    moreover have "dropWhile is_id_char ?rest = [] \<or> \<not> is_id_char (hd (dropWhile is_id_char ?rest))"
      using hd_dropWhile [of is_id_char ?rest] by blast
    ultimately show ?thesis
      using True g by blast
  next
    case False
    with Cons.prems have "re_search lit cs = Some g"
      by (auto simp: Let_def split: if_splits)
    from Cons.IH [OF this] obtain pre post where
      "cs = pre @ lit @ g @ post" "g \<noteq> []" "\<forall>c \<in> set g. is_id_char c"
      "post = [] \<or> \<not> is_id_char (hd post)"
      by blast
    then have "c # cs = (c # pre) @ lit @ g @ post"
      by simp
    with \<open>g \<noteq> []\<close> \<open>\<forall>c \<in> set g. is_id_char c\<close> \<open>post = [] \<or> \<not> is_id_char (hd post)\<close>
    show ?thesis by blast
  qed
qed

lemma re_search_complete:
  "g \<noteq> [] \<Longrightarrow> is_id_char (hd g) \<Longrightarrow> re_search lit (pre @ lit @ g @ post) \<noteq> None"
proof (induction pre)
  case Nil
  from Nil obtain x xs where g: "g = x # xs" by (cases g) auto
  then obtain c cs where u: "lit @ g @ post = c # cs" by (cases lit) auto
  have "prefix lit (c # cs)"
    using u by (metis prefixI)
  moreover have "drop (length lit) (c # cs) = g @ post"
    using u by (metis append_eq_conv_conj)
  moreover have "takeWhile is_id_char (g @ post) \<noteq> []"
    using Nil g by simp
  ultimately show ?case
    using u by (simp add: Let_def)
next
  case (Cons a pre)
  then show ?case by (simp add: Let_def)
qed

lemma first_match_None: "first_match ps url = None \<longleftrightarrow> (\<forall>p \<in> set ps. re_search p url = None)"
  by (induction ps) (auto split: option.splits)

lemma first_match_Some:
  "i < length ps \<Longrightarrow> re_search (ps ! i) url = Some g
   \<Longrightarrow> (\<forall>j < i. re_search (ps ! j) url = None) \<Longrightarrow> first_match ps url = Some g"
proof (induction ps arbitrary: i)
  case Nil
  then show ?case by simp
next
  case (Cons p ps)
  show ?case
  proof (cases i)
    case 0
    with Cons.prems show ?thesis by simp
  next
    case (Suc k)
    with Cons.prems have "re_search p url = None"
      by (metis nth_Cons_0 zero_less_Suc)
    moreover have "first_match ps url = Some g"
    proof (rule Cons.IH)
      show "k < length ps" using Cons.prems Suc by simp
      show "re_search (ps ! k) url = Some g" using Cons.prems Suc by simp
      show "\<forall>j<k. re_search (ps ! j) url = None"
        using Cons.prems(3) Suc by (metis Suc_less_eq nth_Cons_Suc)
    qed
    ultimately show ?thesis by simp
  qed
qed

text \<open>
  C3 (as the code has it): for every URL string, \<open>extract_video_id\<close> returns the
  identifier captured by the first of the five shapes, in the order watch?v=, youtu.be/,
  embed/, /v/, shorts/, whose pattern matches; for every string matching none of the five
  shapes it returns None.
\<close>

theorem extract_video_id_first_shape:
  "(\<forall>i < length patterns.
      re_search (patterns ! i) url = Some g \<and> (\<forall>j < i. re_search (patterns ! j) url = None)
      \<longrightarrow> extract_video_id url = Some g)
   \<and> ((\<forall>p \<in> set patterns. re_search p url = None) \<longrightarrow> extract_video_id url = None)"
  unfolding extract_video_id_def
  using first_match_Some [of _ patterns url g] first_match_None [of patterns url] by blast

text \<open>
  A URL can match two shapes; the earlier pattern of the list decides, so the identifier
  captured by the youtu.be/ pattern is not what is returned here.
\<close>

theorem extract_video_id_two_shapes_counterexample:
  "re_search ''youtu.be/'' url_two_shapes = Some ''abc123''
   \<and> ''youtu.be/'' \<in> set patterns
   \<and> extract_video_id url_two_shapes = Some ''xyz789''"
  unfolding url_two_shapes_def by code_simp

theorem extract_video_id_first_shape_witness:
  "(1::nat) < length patterns
   \<and> re_search (patterns ! 1) url_short = Some ''dQw4w9WgXcQ''
   \<and> re_search (patterns ! 0) url_short = None
   \<and> extract_video_id url_short = Some ''dQw4w9WgXcQ''
   \<and> list_all (\<lambda>p. re_search p url_other = None) patterns
   \<and> extract_video_id url_other = None"
proof -
  have l: "(1::nat) < length patterns" by (simp add: patterns_def)
  have h1: "re_search (patterns ! 1) url_short = Some ''dQw4w9WgXcQ''"
    unfolding url_short_def by code_simp
  have h0: "\<forall>j < (1::nat). re_search (patterns ! j) url_short = None"
  proof -
    have "re_search (patterns ! 0) url_short = None"
      unfolding url_short_def by code_simp
    then show ?thesis by simp
  qed
  have n: "list_all (\<lambda>p. re_search p url_other = None) patterns"
    unfolding url_other_def by code_simp
  then have n': "\<forall>p \<in> set patterns. re_search p url_other = None"
    by (simp add: list_all_iff)
  from extract_video_id_first_shape [of url_short "''dQw4w9WgXcQ''"] l h1 h0
  have r1: "extract_video_id url_short = Some ''dQw4w9WgXcQ''" by blast
  from extract_video_id_first_shape [of url_other "[]"] n'
  have r2: "extract_video_id url_other = None" by blast
  from l h1 h0 n r1 r2 show ?thesis by simp
qed

subsection \<open>Concept extraction\<close>

lemma str_in_iff_count: "sub \<noteq> [] \<Longrightarrow> str_in sub s \<longleftrightarrow> 1 \<le> str_count sub s"
  by (induction s) auto

lemma set_unique_terms: "set (unique_terms seen xs) = fst ` set xs - set seen"
  by (induction seen xs rule: unique_terms.induct) auto

lemma distinct_unique_terms: "distinct (unique_terms seen xs)"
  by (induction seen xs rule: unique_terms.induct) (auto simp: set_unique_terms)

lemma length_unique_terms: "length (unique_terms seen xs) \<le> length xs"
  by (induction seen xs rule: unique_terms.induct) auto

lemma sorted_unique_terms:
  "sorted_wrt (\<lambda>a b. g (fst b) \<le> (g (fst a) :: nat)) xs
   \<Longrightarrow> sorted_wrt (\<lambda>a b. g b \<le> g a) (unique_terms seen xs)"
  by (induction seen xs rule: unique_terms.induct) (auto simp: set_unique_terms)

lemma distinct_count_list_le: "distinct xs \<Longrightarrow> count_list xs x \<le> 1"
  by (induction xs) auto

lemma found_concepts_counts:
  "item \<in> set (found_concepts keywords t) \<Longrightarrow> snd item = str_count (fst item) t"
  by (auto simp: found_concepts_def)

lemma sorted_found_concepts:
  "sorted_wrt (\<lambda>a b. str_count (fst b) t \<le> str_count (fst a) t)
     (sort_key (\<lambda>item. - int (snd item)) (found_concepts keywords t))"
proof -
  let ?S = "sort_key (\<lambda>item. - int (snd item)) (found_concepts keywords t)"
  have "sorted (map (\<lambda>item. - int (snd item)) ?S)"
    by (rule sorted_sort_key)
  then have "sorted_wrt (\<lambda>a b. - int (snd a) \<le> - int (snd b)) ?S"
    by (simp add: sorted_map)
  moreover have "str_count (fst b) t \<le> str_count (fst a) t"
    if "a \<in> set ?S" "b \<in> set ?S" "- int (snd a) \<le> - int (snd b)" for a b
  proof -
    have "snd a = str_count (fst a) t" "snd b = str_count (fst b) t"
      using that(1,2) by (simp_all add: found_concepts_counts)
    with that(3) show ?thesis by simp
  qed
  ultimately show ?thesis
    by (rule sorted_wrt_mono_rel [rotated])
qed

lemma rank_terms_props:
  "distinct (rank_terms (found_concepts keywords t))
   \<and> length (rank_terms (found_concepts keywords t)) \<le> 10
   \<and> sorted_wrt (\<lambda>a b. str_count b t \<le> str_count a t) (rank_terms (found_concepts keywords t))"
  unfolding rank_terms_def
  by (simp add: distinct_unique_terms sorted_unique_terms sorted_found_concepts)

lemma rank_terms_complete:
  assumes "length (found_concepts keywords t) \<le> 10" and "(k, n) \<in> set (found_concepts keywords t)"
  shows "k \<in> set (rank_terms (found_concepts keywords t))"
proof -
  let ?S = "sort_key (\<lambda>item. - int (snd item)) (found_concepts keywords t)"
  have "length (unique_terms [] ?S) \<le> 10"
    using length_unique_terms [of "[]" ?S] assms(1) by simp
  then have "rank_terms (found_concepts keywords t) = unique_terms [] ?S"
    by (simp add: rank_terms_def)
  moreover have "k \<in> fst ` set ?S"
    using assms(2) by force
  ultimately show ?thesis
    by (simp add: set_unique_terms)
qed

lemma map_of_map_value:
  "distinct (map fst kvs) \<Longrightarrow> (k, v) \<in> set kvs
   \<Longrightarrow> map_of (map (\<lambda>(k, v). (k, f v)) kvs) k = Some (f v)"
  by (induction kvs) (auto simp: rev_image_eqI)

lemma distinct_categories: "distinct (map fst TRADING_KEYWORDS)"
  by (simp add: TRADING_KEYWORDS_def)

lemma keywords_nonempty:
  "(category, keywords) \<in> set TRADING_KEYWORDS \<Longrightarrow> keyword \<in> set keywords \<Longrightarrow> keyword \<noteq> []"
  by (auto simp: TRADING_KEYWORDS_def)

lemma extract_key_concepts_lookup:
  "(category, keywords) \<in> set TRADING_KEYWORDS
   \<Longrightarrow> extract_key_concepts text category = Some (rank_terms (found_concepts keywords (lower text)))"
  by (simp add: extract_key_concepts_def Let_def map_of_map_value [OF distinct_categories])

text \<open>
  The place of an element in a stably sorted list: before it stand the elements with a
  smaller key and those with the same key that stood before it.
\<close>

lemma takeWhile_filter:
  assumes "P x"
  shows "takeWhile (\<lambda>z. z \<noteq> x) (filter P xs) = filter P (takeWhile (\<lambda>z. z \<noteq> x) xs)"
proof (induct xs)
  case Nil
  show ?case by simp
next
  case (Cons a xs)
  show ?case
  proof (cases "a = x")
    case True
    with assms show ?thesis by simp
  next
    case False
    with Cons show ?thesis by simp
  qed
qed

lemma sort_key_before:
  fixes f :: "'a \<Rightarrow> int"
  assumes "x \<in> set xs"
  shows "set (takeWhile (\<lambda>z. z \<noteq> x) (sort_key f xs))
    = {y \<in> set xs. f y < f x} \<union> {y \<in> set (takeWhile (\<lambda>z. z \<noteq> x) xs). f y = f x}"
proof -
  let ?S = "sort_key f xs"
  let ?T = "takeWhile (\<lambda>z. z \<noteq> x) ?S"
  let ?D = "dropWhile (\<lambda>z. z \<noteq> x) ?S"
  let ?P = "\<lambda>y. f y = f x"
  have xS: "x \<in> set ?S" using assms by simp
  then have "?D \<noteq> []" by (simp add: dropWhile_eq_Nil_conv)
  then obtain d ds where D: "?D = d # ds" by (cases ?D) auto
  have "\<not> (hd ?D \<noteq> x)" using \<open>?D \<noteq> []\<close> by (rule hd_dropWhile)
  with D have d: "d = x" by simp
  have split: "?S = ?T @ x # ds" using D d by (metis takeWhile_dropWhile_id)
  have "sorted (map f ?S)" by (rule sorted_sort_key)
  then have "sorted (map f ?T @ f x # map f ds)" using split by (metis map_append list.simps(9))
  then have low: "\<forall>y \<in> set ?T. f y \<le> f x" and high: "\<forall>y \<in> set ds. f x \<le> f y"
    by (auto simp: sorted_append)
  have setS: "set xs = set ?T \<union> insert x (set ds)"
    using split by (metis set_sort set_append list.simps(15))
  have "filter ?P ?T = takeWhile (\<lambda>z. z \<noteq> x) (filter ?P ?S)"
    by (simp add: takeWhile_filter)
  also have "\<dots> = takeWhile (\<lambda>z. z \<noteq> x) (filter ?P xs)"
    by (simp add: sort_key_stable)
  also have "\<dots> = filter ?P (takeWhile (\<lambda>z. z \<noteq> x) xs)"
    by (simp add: takeWhile_filter)
  finally have eqT: "filter ?P ?T = filter ?P (takeWhile (\<lambda>z. z \<noteq> x) xs)" .
  show ?thesis
  proof (intro set_eqI iffI)
    fix y assume y: "y \<in> set ?T"
    then have yxs: "y \<in> set xs" using setS by simp
    from y low have "f y \<le> f x" by simp
    then consider "f y < f x" | "f y = f x" by linarith
    then show "y \<in> {y \<in> set xs. f y < f x} \<union> {y \<in> set (takeWhile (\<lambda>z. z \<noteq> x) xs). f y = f x}"
    proof cases
      case 1
      with yxs show ?thesis by simp
    next
      case 2
      with y have "y \<in> set (filter ?P ?T)" by simp
      then have "y \<in> set (filter ?P (takeWhile (\<lambda>z. z \<noteq> x) xs))" using eqT by simp
      with 2 show ?thesis by simp
    qed
  next
    fix y assume "y \<in> {y \<in> set xs. f y < f x} \<union> {y \<in> set (takeWhile (\<lambda>z. z \<noteq> x) xs). f y = f x}"
    then consider "y \<in> set xs" "f y < f x" | "y \<in> set (takeWhile (\<lambda>z. z \<noteq> x) xs)" "f y = f x"
      by auto
    then show "y \<in> set ?T"
    proof cases
      case 1
      then have "y \<noteq> x" "y \<notin> set ds" using high by auto
      with 1(1) setS show ?thesis by auto
    next
      case 2
      then have "y \<in> set (filter ?P (takeWhile (\<lambda>z. z \<noteq> x) xs))" by simp
      then have "y \<in> set (filter ?P ?T)" using eqT by simp
      then show ?thesis by simp
    qed
  qed
qed

lemma in_take_iff:
  assumes "x \<in> set xs"
  shows "x \<in> set (take n xs) \<longleftrightarrow> length (takeWhile (\<lambda>z. z \<noteq> x) xs) < n"
proof -
  let ?T = "takeWhile (\<lambda>z. z \<noteq> x) xs"
  let ?D = "dropWhile (\<lambda>z. z \<noteq> x) xs"
  have "?D \<noteq> []" using assms by (simp add: dropWhile_eq_Nil_conv)
  then obtain d ds where D: "?D = d # ds" by (cases ?D) auto
  have "\<not> (hd ?D \<noteq> x)" using \<open>?D \<noteq> []\<close> by (rule hd_dropWhile)
  with D have "d = x" by simp
  with D have split: "xs = ?T @ x # ds" by (metis takeWhile_dropWhile_id)
  have notin: "x \<notin> set ?T" by (auto dest: set_takeWhileD)
  show ?thesis
  proof (cases "length ?T < n")
    case True
    then obtain m where m: "n - length ?T = Suc m" by (cases "n - length ?T") auto
    have "take n xs = take n (?T @ x # ds)" using split by simp
    also have "\<dots> = ?T @ take (n - length ?T) (x # ds)" using True by simp
    also have "\<dots> = ?T @ x # take m ds" using m by simp
    finally show ?thesis using True by simp
  next
    case False
    have "take n xs = take n (?T @ x # ds)" using split by simp
    also have "\<dots> = take n ?T" using False by simp
    finally have "x \<notin> set (take n xs)" using notin by (auto dest: in_set_takeD)
    with False show ?thesis by simp
  qed
qed

lemma unique_terms_distinct:
  "distinct (map fst xs) \<Longrightarrow> set seen \<inter> fst ` set xs = {} \<Longrightarrow> unique_terms seen xs = map fst xs"
  by (induction seen xs rule: unique_terms.induct) auto

lemma map_insort_key:
  "f x = g (h x) \<Longrightarrow> \<forall>y \<in> set ys. f y = g (h y)
   \<Longrightarrow> map h (insort_key f x ys) = insort_key g (h x) (map h ys)"
  by (induction ys) auto

lemma map_sort_key:
  "\<forall>x \<in> set xs. f x = g (h x) \<Longrightarrow> map h (sort_key f xs) = sort_key g (map h xs)"
  by (induction xs) (simp_all add: map_insort_key)

lemma found_terms: "map fst (found_concepts keywords t) = filter (\<lambda>k. str_in k t) keywords"
  by (simp add: found_concepts_def comp_def)

lemma ranked_found_terms:
  "map fst (sort_key (\<lambda>item. - int (snd item)) (found_concepts keywords t))
     = sort_key (\<lambda>k. - int (str_count k t)) (filter (\<lambda>k. str_in k t) keywords)"
proof -
  have "\<forall>item \<in> set (found_concepts keywords t). - int (snd item) = - int (str_count (fst item) t)"
    by (auto simp: found_concepts_def)
  then have "map fst (sort_key (\<lambda>item. - int (snd item)) (found_concepts keywords t))
      = sort_key (\<lambda>k. - int (str_count k t)) (map fst (found_concepts keywords t))"
    by (rule map_sort_key)
  then show ?thesis by (simp add: found_terms)
qed

lemma rank_terms_sorted_found:
  assumes "distinct keywords"
  shows "rank_terms (found_concepts keywords t)
    = take 10 (sort_key (\<lambda>k. - int (str_count k t)) (filter (\<lambda>k. str_in k t) keywords))"
proof -
  let ?S = "sort_key (\<lambda>item. - int (snd item)) (found_concepts keywords t)"
  have "distinct (map fst ?S)"
    using assms by (simp add: ranked_found_terms)
  then have "unique_terms [] ?S = map fst ?S"
    by (simp add: unique_terms_distinct)
  then show ?thesis
    by (simp add: rank_terms_def ranked_found_terms)
qed

lemma rank_terms_member:
  assumes "distinct keywords" and "str_in keyword t" and "keyword \<in> set keywords"
  shows "keyword \<in> set (rank_terms (found_concepts keywords t))
    \<longleftrightarrow> length (filter (\<lambda>other. ranks_before keywords t other keyword)
                 (map fst (found_concepts keywords t))) < 10"
proof -
  let ?P = "\<lambda>k. str_in k t"
  let ?F = "filter ?P keywords"
  let ?g = "\<lambda>k. - int (str_count k t)"
  let ?R = "sort_key ?g ?F"
  let ?Q = "\<lambda>other. ranks_before keywords t other keyword"
  have kF: "keyword \<in> set ?F" using assms(2,3) by simp
  then have kR: "keyword \<in> set ?R" by simp
  have dF: "distinct ?F" using assms(1) by simp
  then have dT: "distinct (takeWhile (\<lambda>z. z \<noteq> keyword) ?R)"
    by (simp add: distinct_takeWhile)
  have tw: "takeWhile (\<lambda>z. z \<noteq> keyword) ?F = filter ?P (takeWhile (\<lambda>z. z \<noteq> keyword) keywords)"
    using assms(2) by (simp add: takeWhile_filter)
  have "set (takeWhile (\<lambda>z. z \<noteq> keyword) ?R)
      = {y \<in> set ?F. ?g y < ?g keyword} \<union> {y \<in> set (takeWhile (\<lambda>z. z \<noteq> keyword) ?F). ?g y = ?g keyword}"
    using kF by (rule sort_key_before)
  also have "\<dots> = set (filter ?Q ?F)"
    unfolding tw by (auto simp: ranks_before_def dest: set_takeWhileD)
  finally have seteq: "set (takeWhile (\<lambda>z. z \<noteq> keyword) ?R) = set (filter ?Q ?F)" .
  have c1: "card (set (takeWhile (\<lambda>z. z \<noteq> keyword) ?R)) = length (takeWhile (\<lambda>z. z \<noteq> keyword) ?R)"
    using dT by (rule distinct_card)
  have "distinct (filter ?Q ?F)"
    using dF by (rule distinct_filter)
  then have c2: "card (set (filter ?Q ?F)) = length (filter ?Q ?F)"
    by (rule distinct_card)
  have len: "length (takeWhile (\<lambda>z. z \<noteq> keyword) ?R) = length (filter ?Q ?F)"
    using c1 c2 seteq by metis
  have "keyword \<in> set (rank_terms (found_concepts keywords t)) \<longleftrightarrow> keyword \<in> set (take 10 ?R)"
    using assms(1) by (simp add: rank_terms_sorted_found)
  also have "\<dots> \<longleftrightarrow> length (takeWhile (\<lambda>z. z \<noteq> keyword) ?R) < 10"
    using kR by (rule in_take_iff)
  finally have "keyword \<in> set (rank_terms (found_concepts keywords t))
      \<longleftrightarrow> length (filter ?Q ?F) < 10"
    using len by simp
  then show ?thesis
    by (simp only: found_terms)
qed

lemma keywords_distinct:
  "(category, keywords) \<in> set TRADING_KEYWORDS \<Longrightarrow> distinct keywords"
proof -
  have "list_all (\<lambda>entry. distinct (snd entry)) TRADING_KEYWORDS"
    by code_simp
  then show "(category, keywords) \<in> set TRADING_KEYWORDS \<Longrightarrow> distinct keywords"
    by (auto simp: list_all_iff)
qed

text \<open>
  C2 (as the code has it): for every transcript text and every keyword of a fixed category
  that occurs \<open>N \<ge> 1\<close> times in the lowercased text (counted as \<open>str.count\<close> counts,
  without overlaps), the first loop records that keyword with count \<open>N\<close>; the category's
  result list holds the keyword at most once, has at most 10 entries and is ranked by
  descending occurrence count; and the keyword is in the result list exactly when fewer
  than ten found keywords of the category rank before it.
\<close>

theorem extract_key_concepts_ranked:
  assumes "(category, keywords) \<in> set TRADING_KEYWORDS"
    and "keyword \<in> set keywords"
    and "str_count keyword (lower text) = N"
    and "1 \<le> N"
  shows "(keyword, N) \<in> set (found_concepts keywords (lower text))
    \<and> (\<exists>result. extract_key_concepts text category = Some result
          \<and> count_list result keyword \<le> 1
          \<and> length result \<le> 10
          \<and> sorted_wrt (\<lambda>a b. str_count b (lower text) \<le> str_count a (lower text)) result
          \<and> (keyword \<in> set result
               \<longleftrightarrow> length (filter (\<lambda>other. ranks_before keywords (lower text) other keyword)
                            (map fst (found_concepts keywords (lower text)))) < 10))"
proof -
  let ?found = "found_concepts keywords (lower text)"
  have ne: "keyword \<noteq> []"
    using assms(1,2) by (rule keywords_nonempty)
  then have occurs: "str_in keyword (lower text)"
    using assms(3,4) by (simp add: str_in_iff_count)
  then have found: "(keyword, N) \<in> set ?found"
    using assms(2,3) by (auto simp: found_concepts_def)
  have look: "extract_key_concepts text category = Some (rank_terms ?found)"
    using assms(1) by (rule extract_key_concepts_lookup)
  have props: "distinct (rank_terms ?found) \<and> length (rank_terms ?found) \<le> 10
      \<and> sorted_wrt (\<lambda>a b. str_count b (lower text) \<le> str_count a (lower text)) (rank_terms ?found)"
    by (rule rank_terms_props)
  then have "distinct (rank_terms ?found)"
    by simp
  then have once: "count_list (rank_terms ?found) keyword \<le> 1"
    by (rule distinct_count_list_le)
  have "distinct keywords"
    using assms(1) by (rule keywords_distinct)
  then have "keyword \<in> set (rank_terms ?found)
      \<longleftrightarrow> length (filter (\<lambda>other. ranks_before keywords (lower text) other keyword)
                   (map fst ?found)) < 10"
    using occurs assms(2) by (rule rank_terms_member)
  with found look props once show ?thesis by simp
qed

theorem extract_key_concepts_ranked_witness:
  "(''indicators'', dict_get (map_of TRADING_KEYWORDS) ''indicators'') \<in> set TRADING_KEYWORDS
   \<and> ''ichimoku'' \<in> set (dict_get (map_of TRADING_KEYWORDS) ''indicators'')
   \<and> str_count ''ichimoku'' (lower text11_thrice) = 3
   \<and> length (found_concepts (dict_get (map_of TRADING_KEYWORDS) ''indicators'') (lower text11_thrice)) = 11
   \<and> length (filter (\<lambda>other. ranks_before (dict_get (map_of TRADING_KEYWORDS) ''indicators'')
                                 (lower text11_thrice) other ''ichimoku'')
               (map fst (found_concepts (dict_get (map_of TRADING_KEYWORDS) ''indicators'')
                           (lower text11_thrice)))) = 0
   \<and> ''ichimoku'' \<in> set (dict_get (extract_key_concepts text11_thrice) ''indicators'')"
proof -
  let ?kw = "dict_get (map_of TRADING_KEYWORDS) ''indicators''"
  have h1: "(''indicators'', ?kw) \<in> set TRADING_KEYWORDS"
    by code_simp
  have h2: "''ichimoku'' \<in> set ?kw"
    by code_simp
  have h3: "str_count ''ichimoku'' (lower text11_thrice) = 3"
    unfolding text11_thrice_def by code_simp
  have h4: "(1::nat) \<le> 3" by simp
  have n: "length (found_concepts ?kw (lower text11_thrice)) = 11"
    unfolding text11_thrice_def by code_simp
  have r: "length (filter (\<lambda>other. ranks_before ?kw (lower text11_thrice) other ''ichimoku'')
                     (map fst (found_concepts ?kw (lower text11_thrice)))) = 0"
    unfolding text11_thrice_def by code_simp
  from extract_key_concepts_ranked [OF h1 h2 h3 h4] r
  obtain result where "extract_key_concepts text11_thrice ''indicators'' = Some result"
    and "''ichimoku'' \<in> set result"
    by auto
  then have "''ichimoku'' \<in> set (dict_get (extract_key_concepts text11_thrice) ''indicators'')"
    by (simp add: dict_get_def)
  with h1 h2 h3 n r show ?thesis by simp
qed

text \<open>
  A keyword that occurs is not always reported: with eleven indicator keywords in the
  text, each occurring once, ten rank before the eleventh and the cut to ten drops it.
\<close>

theorem extract_key_concepts_top10_counterexample:
  "str_count ''ichimoku'' (lower text11) = 1
   \<and> ''ichimoku'' \<in> set (dict_get (map_of TRADING_KEYWORDS) ''indicators'')
   \<and> ''ichimoku'' \<notin> set (dict_get (extract_key_concepts text11) ''indicators'')"
  unfolding text11_def by code_simp

subsection \<open>Strategy components\<close>

lemma entries_ok_append:
  "entries_ok A d \<Longrightarrow> e \<in> strip ` A \<Longrightarrow> 10 \<le> length e \<Longrightarrow> entries_ok A (dict_append d k e)"
  by (auto simp: entries_ok_def dict_append_def split: option.splits if_splits)

lemma entries_ok_step:
  "entries_ok A d \<Longrightarrow> raw \<in> A \<Longrightarrow> entries_ok A (sentence_step d raw)"
  by (simp add: sentence_step_def Let_def entries_ok_append)

lemma entries_ok_foldl:
  "entries_ok A d \<Longrightarrow> set raws \<subseteq> A \<Longrightarrow> entries_ok A (foldl sentence_step d raws)"
  by (induction raws arbitrary: d) (simp_all add: entries_ok_step)

lemma entries_ok_empty: "entries_ok A empty_components"
  by (auto simp: entries_ok_def empty_components_def split: if_splits)

text \<open>
  C9: for every transcript text, every bucket list produced by
  \<open>identify_strategy_components\<close> (entry_conditions, exit_conditions, risk_management,
  key_rules and the rest) has at most 5 entries, and every entry is a stripped sentence of
  the input text of length at least 10 characters.
\<close>

theorem identify_strategy_components_buckets:
  "identify_strategy_components text key = Some bucket \<Longrightarrow>
     length bucket \<le> 5
     \<and> (\<forall>entry \<in> set bucket. entry \<in> strip ` set (split_sentences text) \<and> 10 \<le> length entry)"
proof -
  assume a: "identify_strategy_components text key = Some bucket"
  let ?c = "foldl sentence_step empty_components (split_sentences text)"
  from a obtain v where v: "?c key = Some v" and b: "bucket = take 5 v"
    by (auto simp: identify_strategy_components_def Let_def)
  have "entries_ok (set (split_sentences text)) ?c"
    by (rule entries_ok_foldl [OF entries_ok_empty]) simp
  with v have "\<forall>e \<in> set v. e \<in> strip ` set (split_sentences text) \<and> 10 \<le> length e"
    by (simp add: entries_ok_def)
  with b show ?thesis
    by (auto dest: in_set_takeD)
qed

theorem identify_strategy_components_buckets_witness:
  "identify_strategy_components text_both ''entry_conditions'' = Some [''Buy when price is up'']
   \<and> length [''Buy when price is up''] \<le> (5::nat)
   \<and> ''Buy when price is up'' \<in> strip ` set (split_sentences text_both)
   \<and> (10::nat) \<le> length ''Buy when price is up''"
proof -
  have h: "identify_strategy_components text_both ''entry_conditions'' = Some [''Buy when price is up'']"
    unfolding text_both_def by code_simp
  from identify_strategy_components_buckets [OF h] h show ?thesis by simp
qed

subsection \<open>Script type\<close>

text \<open>
  C7: for every transcript whose identified strategy components contain no entry
  conditions and no exit conditions, the generated specification has script type
  "indicator"; for every transcript whose components contain both entry and exit
  conditions, it has script type "strategy".
\<close>

theorem script_type_from_components:
  "(dict_get (identify_strategy_components text) ''entry_conditions'' = []
      \<and> dict_get (identify_strategy_components text) ''exit_conditions'' = []
     \<longrightarrow> script_type (generate_pine_script_spec (extract_key_concepts text)
            (identify_strategy_components text) metadata source) = ''indicator'')
   \<and> (dict_get (identify_strategy_components text) ''entry_conditions'' \<noteq> []
      \<and> dict_get (identify_strategy_components text) ''exit_conditions'' \<noteq> []
     \<longrightarrow> script_type (generate_pine_script_spec (extract_key_concepts text)
            (identify_strategy_components text) metadata source) = ''strategy'')"
  by (auto simp: generate_pine_script_spec_def Let_def dict_truthy_def dict_get_def split: option.splits)

theorem script_type_from_components_witness:
  "dict_get (identify_strategy_components text_none) ''entry_conditions'' = []
   \<and> dict_get (identify_strategy_components text_none) ''exit_conditions'' = []
   \<and> script_type (generate_pine_script_spec (extract_key_concepts text_none)
        (identify_strategy_components text_none) Map.empty ''whisper'') = ''indicator''
   \<and> dict_get (identify_strategy_components text_both) ''entry_conditions'' \<noteq> []
   \<and> dict_get (identify_strategy_components text_both) ''exit_conditions'' \<noteq> []
   \<and> script_type (generate_pine_script_spec (extract_key_concepts text_both)
        (identify_strategy_components text_both) Map.empty ''whisper'') = ''strategy''"
proof -
  have n1: "dict_get (identify_strategy_components text_none) ''entry_conditions'' = []"
    unfolding text_none_def by code_simp
  have n2: "dict_get (identify_strategy_components text_none) ''exit_conditions'' = []"
    unfolding text_none_def by code_simp
  have b1: "dict_get (identify_strategy_components text_both) ''entry_conditions'' \<noteq> []"
    unfolding text_both_def by code_simp
  have b2: "dict_get (identify_strategy_components text_both) ''exit_conditions'' \<noteq> []"
    unfolding text_both_def by code_simp
  from script_type_from_components [of text_none Map.empty "''whisper''"]
       script_type_from_components [of text_both Map.empty "''whisper''"]
       n1 n2 b1 b2
  show ?thesis by simp
qed

subsection \<open>The transcript cache\<close>

lemma cache_and_return_stored:
  "cache_and_return e video_id r w = (Inr (Some t, source), w1) \<Longrightarrow> cache w1 video_id = Some (t, source)"
  by (cases "(e, video_id, r, w)" rule: cache_and_return.cases) (auto split: if_splits)

lemma get_transcript_stored:
  assumes "get_transcript e use_whisper url video_id w = (Inr (Some t, source), w1)" and "t \<noteq> []"
  shows "\<exists>s. cache w1 video_id = Some (t, s)"
proof (cases "cache w video_id")
  case (Some entry)
  with assms show ?thesis
    by (cases entry) (auto simp: get_transcript_def split: if_splits)
next
  case None
  obtain captions w' where c: "(if \<not> use_whisper then get_transcript_from_youtube e video_id w
      else ((None, []), w)) = (captions, w')"
    by (cases "if \<not> use_whisper then get_transcript_from_youtube e video_id w else ((None, []), w)")
  obtain spoken w'' where s: "get_transcript_from_whisper e url w' = (spoken, w'')"
    by (cases "get_transcript_from_whisper e url w'")
  show ?thesis
  proof (cases "\<not> use_whisper \<and> truthy (fst captions)")
    case True
    with assms(1) None c have "cache_and_return e video_id captions w' = (Inr (Some t, source), w1)"
      by (simp add: get_transcript_def)
    then show ?thesis
      by (auto dest: cache_and_return_stored)
  next
    case False
    show ?thesis
    proof (cases "truthy (fst spoken)")
      case True
      with assms(1) None c s False
      have "cache_and_return e video_id spoken w'' = (Inr (Some t, source), w1)"
        by (simp add: get_transcript_def)
      then show ?thesis
        by (auto dest: cache_and_return_stored)
    next
      case nt: False
      with assms(1) None c s False have "spoken = (Some t, source)"
        by (simp add: get_transcript_def)
      with nt assms(2) show ?thesis by simp
    qed
  qed
qed

lemma get_transcript_hit:
  "cache w video_id = Some (t, s) \<Longrightarrow>
     get_transcript e use_whisper url video_id w =
       (if io_fails e (ReadCache video_id) then (Inl (OSError (ReadCache video_id)), w)
        else (Inr (Some t, s @ ''_cached''), w))"
  by (simp add: get_transcript_def)

lemma manual_run:
  "get_transcript env_manual False url_short ''dQw4w9WgXcQ'' world0 =
     (Inr (Some ''Buy when price is up. Sell when price is down.'', ''manual_captions''),
      \<lparr> cache = [''dQw4w9WgXcQ'' \<mapsto> (''Buy when price is up. Sell when price is down.'', ''manual_captions'')],
        trace = [ListCaptions, TryManual, FetchCaptions] \<rparr>)"
  by (simp add: get_transcript_def get_transcript_from_youtube_def fetch_text_def log_event_def
      env_manual_def world0_def english_def Let_def)

text \<open>
  C4 (as the code has it): for every video identifier, when a call of \<open>get_transcript\<close>
  returns a non-empty transcript, a second call with the same identifier leaves the
  world as it is (no caption listing, no caption fetch, no Whisper run: nothing is added
  to the trace) and, when the cache file can be read, returns that transcript from the
  cache, its source tagged \<open>_cached\<close>.
\<close>

theorem get_transcript_second_call_cached:
  assumes "get_transcript e1 use_whisper1 url1 video_id w = (Inr (Some t, source), w1)"
    and "t \<noteq> []"
  shows "snd (get_transcript e2 use_whisper2 url2 video_id w1) = w1
    \<and> (\<not> io_fails e2 (ReadCache video_id) \<longrightarrow>
         (\<exists>s. fst (get_transcript e2 use_whisper2 url2 video_id w1) = Inr (Some t, s @ ''_cached'')))"
proof -
  from assms obtain s where "cache w1 video_id = Some (t, s)"
    using get_transcript_stored by blast
  then show ?thesis
    by (simp add: get_transcript_hit)
qed

theorem get_transcript_second_call_cached_witness:
  "fst (get_transcript env_manual False url_short ''dQw4w9WgXcQ'' world0)
     = Inr (Some ''Buy when price is up. Sell when price is down.'', ''manual_captions'')
   \<and> trace (snd (get_transcript env_manual False url_short ''dQw4w9WgXcQ'' world0))
     = [ListCaptions, TryManual, FetchCaptions]
   \<and> trace (snd (get_transcript env_manual False url_short ''dQw4w9WgXcQ''
        (snd (get_transcript env_manual False url_short ''dQw4w9WgXcQ'' world0))))
     = [ListCaptions, TryManual, FetchCaptions]"
proof -
  have ne: "''Buy when price is up. Sell when price is down.'' \<noteq> []" by simp
  from get_transcript_second_call_cached [OF manual_run ne, of env_manual False url_short]
  show ?thesis by (simp add: manual_run)
qed

text \<open>
  Without the condition the claim fails: only a non-empty transcript is written to the
  cache, so after a call that obtained none the second call goes to the network again.
\<close>

theorem get_transcript_refetch_counterexample:
  "trace (snd (get_transcript env_silent False url_short ''dQw4w9WgXcQ'' world0))
     = [ListCaptions, RunWhisper]
   \<and> trace (snd (get_transcript env_silent False url_short ''dQw4w9WgXcQ''
        (snd (get_transcript env_silent False url_short ''dQw4w9WgXcQ'' world0))))
     = [ListCaptions, RunWhisper, ListCaptions, RunWhisper]"
  by (simp add: get_transcript_def get_transcript_from_youtube_def get_transcript_from_whisper_def
      log_event_def env_silent_def env_manual_def world0_def Let_def)

subsection \<open>The fallback chain\<close>

lemma methods_of_simps:
  "methods_of [] = []"
  "methods_of (xs @ ys) = methods_of xs @ methods_of ys"
  "methods_of (x # xs) = (if is_method x then x # methods_of xs else methods_of xs)"
  by (simp_all add: methods_of_def)

lemma fetch_text_trace: "snd (fetch_text e t source w) = log_event FetchCaptions w"
  by (simp add: fetch_text_def split: sum.splits)

lemma find_None_list_ex: "find P xs = None \<longleftrightarrow> \<not> list_ex P xs"
  by (auto simp: find_None_iff list_ex_iff)

lemma youtube_trace:
  "\<exists>events. trace (snd (get_transcript_from_youtube e video_id w)) = trace w @ events
      \<and> methods_of events = caption_methods e video_id"
proof (cases "api_list e video_id")
  case (Inl err)
  then have "trace (snd (get_transcript_from_youtube e video_id w)) = trace w @ [ListCaptions]"
    by (simp add: get_transcript_from_youtube_def log_event_def)
  moreover have "methods_of [ListCaptions] = caption_methods e video_id"
    using Inl by (simp add: caption_methods_def methods_of_simps)
  ultimately show ?thesis by blast
next
  case (Inr ts)
  let ?m = "find (\<lambda>t. language_code t \<in> set english \<and> \<not> is_generated t) ts"
  let ?a = "find (\<lambda>t. language_code t \<in> set english \<and> is_generated t) ts"
  show ?thesis
  proof (cases ?m)
    case (Some t)
    then have "trace (snd (get_transcript_from_youtube e video_id w))
        = trace w @ [ListCaptions, TryManual, FetchCaptions]"
      using Inr by (simp add: get_transcript_from_youtube_def fetch_text_trace log_event_def)
    moreover have "methods_of [ListCaptions, TryManual, FetchCaptions] = caption_methods e video_id"
      using Inr Some by (simp add: caption_methods_def methods_of_simps find_None_list_ex [symmetric])
    ultimately show ?thesis by blast
  next
    case m: None
    show ?thesis
    proof (cases ?a)
      case (Some t)
      then have "trace (snd (get_transcript_from_youtube e video_id w))
          = trace w @ [ListCaptions, TryManual, TryAuto, FetchCaptions]"
        using Inr m by (simp add: get_transcript_from_youtube_def fetch_text_trace log_event_def)
      moreover have "methods_of [ListCaptions, TryManual, TryAuto, FetchCaptions]
          = caption_methods e video_id"
        using Inr m Some
        by (simp add: caption_methods_def methods_of_simps find_None_list_ex [symmetric])
      ultimately show ?thesis by blast
    next
      case a: None
      have cm: "caption_methods e video_id = [TryManual, TryAuto, TryAnyEnglish]"
        using Inr m a by (simp add: caption_methods_def find_None_list_ex [symmetric])
      show ?thesis
      proof (cases "find_transcript e ts")
        case (Some t)
        then have "trace (snd (get_transcript_from_youtube e video_id w))
            = trace w @ [ListCaptions, TryManual, TryAuto, TryAnyEnglish, FetchCaptions]"
          using Inr m a by (simp add: get_transcript_from_youtube_def fetch_text_trace log_event_def)
        moreover have "methods_of [ListCaptions, TryManual, TryAuto, TryAnyEnglish, FetchCaptions]
            = caption_methods e video_id"
          by (simp add: cm methods_of_simps)
        ultimately show ?thesis by blast
      next
        case None
        then have "trace (snd (get_transcript_from_youtube e video_id w))
            = trace w @ [ListCaptions, TryManual, TryAuto, TryAnyEnglish]"
          using Inr m a by (simp add: get_transcript_from_youtube_def log_event_def)
        moreover have "methods_of [ListCaptions, TryManual, TryAuto, TryAnyEnglish]
            = caption_methods e video_id"
          by (simp add: cm methods_of_simps)
        ultimately show ?thesis by blast
      qed
    qed
  qed
qed

lemma whisper_trace: "trace (snd (get_transcript_from_whisper e url w)) = trace w @ [RunWhisper]"
  by (simp add: get_transcript_from_whisper_def log_event_def split: whisper_outcome.splits)

lemma cache_and_return_trace: "trace (snd (cache_and_return e video_id r w)) = trace w"
  by (cases "(e, video_id, r, w)" rule: cache_and_return.cases) simp_all

lemma caption_methods_cases:
  "caption_methods e video_id \<in> {[], [TryManual], [TryManual, TryAuto], [TryManual, TryAuto, TryAnyEnglish]}"
  by (simp add: caption_methods_def split: sum.splits)

lemma chain_subseq:
  assumes "tail = [] \<or> tail = [RunWhisper]"
    and "ms \<in> {[], [TryManual], [TryManual, TryAuto], [TryManual, TryAuto, TryAnyEnglish]}"
  shows "subseq (ms @ tail) [TryManual, TryAuto, TryAnyEnglish, RunWhisper]"
  using assms by auto

lemma world0_uncached: "cache world0 ''dQw4w9WgXcQ'' = None"
  by (simp add: world0_def)

lemma forced_whisper_run:
  "trace (snd (get_transcript env_manual True url_short ''dQw4w9WgXcQ'' world0)) = [RunWhisper]"
  by (simp add: get_transcript_def get_transcript_from_whisper_def log_event_def
      env_manual_def world0_def Let_def)

text \<open>
  C5 (as the code has it): when no transcript is cached, the methods a call of
  \<open>get_transcript\<close> tries are, in this order and each at most once: unless Whisper is
  forced, the caption methods up to the first kind of English track that exists
  (manually created, then auto-generated, then any English variant; none when the
  listing of the tracks fails); then speech-to-text, unless the captions were tried and
  gave a non-empty text. With Whisper forced, speech-to-text is the only method tried.
\<close>

theorem get_transcript_method_order:
  assumes "cache w video_id = None"
  shows "\<exists>events.
      trace (snd (get_transcript e use_whisper url video_id w)) = trace w @ events
      \<and> methods_of events =
          (if use_whisper then [] else caption_methods e video_id)
          @ (if \<not> use_whisper \<and> truthy (fst (fst (get_transcript_from_youtube e video_id w)))
             then [] else [RunWhisper])
      \<and> subseq (methods_of events) [TryManual, TryAuto, TryAnyEnglish, RunWhisper]"
proof (cases use_whisper)
  case True
  with assms have "trace (snd (get_transcript e use_whisper url video_id w)) = trace w @ [RunWhisper]"
    using whisper_trace [of e url w]
    by (auto simp: get_transcript_def Let_def cache_and_return_trace split: prod.splits)
  moreover have "methods_of [RunWhisper] = [RunWhisper]"
    by (simp add: methods_of_simps)
  ultimately show ?thesis
    using True by auto
next
  case False
  obtain captions w1 where y: "get_transcript_from_youtube e video_id w = (captions, w1)"
    by (cases "get_transcript_from_youtube e video_id w")
  from youtube_trace [of e video_id w] y obtain events where
    ev: "trace w1 = trace w @ events" "methods_of events = caption_methods e video_id"
    by auto
  have sub: "subseq (caption_methods e video_id @ tail) [TryManual, TryAuto, TryAnyEnglish, RunWhisper]"
    if "tail = [] \<or> tail = [RunWhisper]" for tail
    using that caption_methods_cases [of e video_id] by (rule chain_subseq)
  show ?thesis
  proof (cases "truthy (fst captions)")
    case True
    with assms False y have "trace (snd (get_transcript e use_whisper url video_id w)) = trace w1"
      by (simp add: get_transcript_def cache_and_return_trace)
    with ev True False y sub [of "[]"] show ?thesis
      by auto
  next
    case nt: False
    from assms False y nt
    have "trace (snd (get_transcript e use_whisper url video_id w)) = trace w1 @ [RunWhisper]"
      using whisper_trace [of e url w1]
      by (auto simp: get_transcript_def Let_def cache_and_return_trace split: prod.splits)
    then have "trace (snd (get_transcript e use_whisper url video_id w)) = trace w @ (events @ [RunWhisper])"
      using ev by simp
    moreover have "methods_of (events @ [RunWhisper]) = caption_methods e video_id @ [RunWhisper]"
      using ev by (simp add: methods_of_simps)
    ultimately show ?thesis
      using nt False y sub [of "[RunWhisper]"] by auto
  qed
qed

theorem get_transcript_method_order_witness:
  "cache world0 ''dQw4w9WgXcQ'' = None
   \<and> methods_of (trace (snd (get_transcript env_manual False url_short ''dQw4w9WgXcQ'' world0)))
       = [TryManual]
   \<and> caption_methods env_manual ''dQw4w9WgXcQ'' = [TryManual]
   \<and> subseq [TryManual] [TryManual, TryAuto, TryAnyEnglish, RunWhisper]"
proof -
  have cm: "caption_methods env_manual ''dQw4w9WgXcQ'' = [TryManual]"
    by (simp add: caption_methods_def env_manual_def english_def)
  have tr: "methods_of (trace (snd (get_transcript env_manual False url_short ''dQw4w9WgXcQ'' world0)))
      = [TryManual]"
    by (simp add: manual_run methods_of_simps)
  from get_transcript_method_order [OF world0_uncached, of env_manual False url_short] cm tr
  show ?thesis
    by (auto simp: world0_uncached)
qed

text \<open>
  The order of the claim is not followed when Whisper is forced: for a video whose
  manual captions give a transcript, the forced run tries speech-to-text only.
\<close>

theorem get_transcript_forced_whisper_counterexample:
  "fst (get_transcript env_manual False url_short ''dQw4w9WgXcQ'' world0)
     = Inr (Some ''Buy when price is up. Sell when price is down.'', ''manual_captions'')
   \<and> methods_of (trace (snd (get_transcript env_manual True url_short ''dQw4w9WgXcQ'' world0)))
     = [RunWhisper]"
  by (simp add: manual_run forced_whisper_run methods_of_simps)

subsection \<open>Complexity score\<close>

text \<open>
  C6: for every concepts dictionary and components dictionary, the complexity score
  computed by \<open>_calculate_complexity\<close> is an integer in the closed interval [1, 10].
\<close>

theorem calculate_complexity_bounds:
  "1 \<le> calculate_complexity concepts components \<and> calculate_complexity concepts components \<le> 10"
  by (simp add: calculate_complexity_def Let_def)

subsection \<open>Feasibility\<close>

text \<open>
  C10: the feasibility assessment is internally consistent: \<open>overall\<close> is "full" if and
  only if the issues list is empty, and \<open>pine_script_compatible\<close> is true if and only if
  the issues list is empty.
\<close>

theorem assess_feasibility_consistent:
  "(overall (assess_feasibility concepts components) = ''full''
      \<longleftrightarrow> issues (assess_feasibility concepts components) = [])
   \<and> (pine_script_compatible (assess_feasibility concepts components)
      \<longleftrightarrow> issues (assess_feasibility concepts components) = [])"
  by (simp add: assess_feasibility_def Let_def)

subsection \<open>The result of the pipeline\<close>

text \<open>The branches of \<open>analyze\<close>, one lemma each.\<close>

lemma re_search_nonempty: "re_search lit url = Some g \<Longrightarrow> g \<noteq> []"
  by (induction url) (auto simp: Let_def split: if_splits)

lemma first_match_nonempty: "first_match ps url = Some g \<Longrightarrow> g \<noteq> []"
  by (induction ps) (auto split: option.splits dest: re_search_nonempty)

lemma extract_video_id_nonempty: "extract_video_id url = Some v \<Longrightarrow> v \<noteq> []"
  by (simp add: extract_video_id_def first_match_nonempty)

lemma metadata_error:
  "extract_info e url = Inl err \<Longrightarrow>
     ((get_video_metadata e url)(''url'' \<mapsto> Str url)) ''error'' = Some (Str err)
     \<and> ((get_video_metadata e url)(''url'' \<mapsto> Str url)) ''title'' = Some (Str ''Unknown'')"
  by (simp add: get_video_metadata_def)

lemma metadata_ok:
  "extract_info e url = Inr info \<Longrightarrow>
     ((get_video_metadata e url)(''url'' \<mapsto> Str url)) ''error'' = None
     \<and> ((get_video_metadata e url)(''url'' \<mapsto> Str url)) ''title''
         = Some (meta_get info ''title'' (Str ''Unknown''))"
  by (simp add: get_video_metadata_def)

lemma title_is_string:
  "info ''title'' \<noteq> Some PyNone \<Longrightarrow> meta_get info ''title'' (Str ''Unknown'') \<noteq> PyNone"
  by (auto simp: meta_get_def split: option.splits)

lemma analyze_stdout:
  "stdout_fails e \<Longrightarrow> analyze e use_whisper url w = (Inl StdoutError, w)"
  by (simp add: analyze_def)

lemma analyze_invalid:
  "\<not> stdout_fails e \<Longrightarrow> extract_video_id url = None \<Longrightarrow>
     analyze e use_whisper url w = (Inr (failure ''Invalid YouTube URL'' None), w)"
  by (simp add: analyze_def)

lemma analyze_inaccessible:
  assumes "\<not> stdout_fails e" and "extract_video_id url = Some v" and "extract_info e url = Inl err"
  shows "analyze e use_whisper url w = (Inr (failure (''Could not access video: '' @ err) None), w)"
  using assms extract_video_id_nonempty [OF assms(2)] metadata_error [OF assms(3)]
  by (simp add: analyze_def Let_def error_text_def)

lemma analyze_untitled:
  assumes "\<not> stdout_fails e" and "extract_video_id url = Some v" and "extract_info e url = Inr info"
    and "info ''title'' = Some PyNone"
  shows "analyze e use_whisper url w = (Inl TypeError, w)"
  using assms extract_video_id_nonempty [OF assms(2)] metadata_ok [OF assms(3)]
  by (simp add: analyze_def Let_def meta_get_def)

lemma analyze_exception:
  assumes "\<not> stdout_fails e" and "extract_video_id url = Some v" and "extract_info e url = Inr info"
    and "info ''title'' \<noteq> Some PyNone"
    and "get_transcript e use_whisper url v w = (Inl x, w1)"
  shows "analyze e use_whisper url w = (Inl x, w1)"
  using assms extract_video_id_nonempty [OF assms(2)] metadata_ok [OF assms(3)]
    title_is_string [of info]
  by (simp add: analyze_def Let_def)

lemma analyze_no_transcript:
  assumes "\<not> stdout_fails e" and "extract_video_id url = Some v" and "extract_info e url = Inr info"
    and "info ''title'' \<noteq> Some PyNone"
    and "get_transcript e use_whisper url v w = (Inr (t, source), w1)" and "\<not> truthy t"
  shows "analyze e use_whisper url w =
    (Inr (failure (''Could not get transcript ('' @ source @ ''). Try with --whisper flag.'')
            (Some ((get_video_metadata e url)(''url'' \<mapsto> Str url)))), w1)"
  using assms extract_video_id_nonempty [OF assms(2)] metadata_ok [OF assms(3)]
    title_is_string [of info]
  by (cases t) (simp_all add: analyze_def Let_def)

lemma analyze_save_fails:
  assumes "\<not> stdout_fails e" and "extract_video_id url = Some v" and "extract_info e url = Inr info"
    and "info ''title'' \<noteq> Some PyNone"
    and "get_transcript e use_whisper url v w = (Inr (Some t, source), w1)" and "t \<noteq> []"
    and "io_fails e (SaveAnalysis v)"
  shows "analyze e use_whisper url w = (Inl (OSError (SaveAnalysis v)), w1)"
  using assms extract_video_id_nonempty [OF assms(2)] metadata_ok [OF assms(3)]
    title_is_string [of info]
  by (simp add: analyze_def Let_def)

lemma analyze_success:
  assumes "\<not> stdout_fails e" and "extract_video_id url = Some v" and "extract_info e url = Inr info"
    and "info ''title'' \<noteq> Some PyNone"
    and "get_transcript e use_whisper url v w = (Inr (Some t, source), w1)" and "t \<noteq> []"
    and "\<not> io_fails e (SaveAnalysis v)"
  shows "\<exists>r. analyze e use_whisper url w = (Inr r, w1) \<and> success r"
  using assms extract_video_id_nonempty [OF assms(2)] metadata_ok [OF assms(3)]
    title_is_string [of info]
  by (simp add: analyze_def Let_def)

lemma cache_and_return_no_exception:
  "\<not> io_fails e (WriteCache video_id) \<Longrightarrow> \<exists>r. fst (cache_and_return e video_id x w) = Inr r"
  by (cases "(e, video_id, x, w)" rule: cache_and_return.cases) simp_all

lemma get_transcript_no_exception:
  assumes "\<forall>f. \<not> io_fails e f"
  shows "\<exists>r. fst (get_transcript e use_whisper url video_id w) = Inr r"
proof (cases "cache w video_id")
  case (Some entry)
  with assms show ?thesis
    by (cases entry) (simp add: get_transcript_def)
next
  case None
  have car: "\<exists>r. fst (cache_and_return e video_id x w') = Inr r" for x w'
    by (rule cache_and_return_no_exception) (simp add: assms)
  obtain captions w1 where c: "(if \<not> use_whisper then get_transcript_from_youtube e video_id w
      else ((None, []), w)) = (captions, w1)"
    by (cases "if \<not> use_whisper then get_transcript_from_youtube e video_id w else ((None, []), w)")
  obtain spoken w2 where s: "get_transcript_from_whisper e url w1 = (spoken, w2)"
    by (cases "get_transcript_from_whisper e url w1")
  from None c s car [of captions w1] car [of spoken w2] show ?thesis
    by (auto simp: get_transcript_def)
qed

lemma failure_fields:
  "\<not> success (failure message m)" "error (failure message m) = Some message"
  by (simp_all add: failure_def)

lemma url_short_id: "extract_video_id url_short = Some ''dQw4w9WgXcQ''"
  unfolding url_short_def by code_simp

lemma readonly_run:
  "get_transcript env_readonly False url_short ''dQw4w9WgXcQ'' world0 =
     (Inr (Some ''Buy when price is up. Sell when price is down.'', ''manual_captions''),
      \<lparr> cache = [''dQw4w9WgXcQ'' \<mapsto> (''Buy when price is up. Sell when price is down.'', ''manual_captions'')],
        trace = [ListCaptions, TryManual, FetchCaptions] \<rparr>)"
  by (simp add: get_transcript_def get_transcript_from_youtube_def fetch_text_def log_event_def
      env_readonly_def env_manual_def world0_def english_def Let_def)

lemma silent_run:
  "get_transcript env_silent False url_short ''dQw4w9WgXcQ'' world0 =
     (Inr (None, ''download_failed''), \<lparr> cache = Map.empty, trace = [ListCaptions, RunWhisper] \<rparr>)"
  by (simp add: get_transcript_def get_transcript_from_youtube_def get_transcript_from_whisper_def
      log_event_def env_silent_def env_manual_def world0_def Let_def)

text \<open>
  C8 (as the code has it): for every input URL, when the standard output accepts the
  messages, the title in the video's metadata is not \<open>None\<close> and the cache and report
  file operations succeed, \<open>analyze\<close> returns a result dictionary rather than raising; a
  result with success = False carries a non-empty error message, and an invalid URL, an
  inaccessible video and a transcript that cannot be obtained each give such a result,
  with the message of its case.
\<close>

theorem analyze_reports_failure:
  assumes "\<not> stdout_fails e"
    and "\<forall>info. extract_info e url = Inr info \<longrightarrow> info ''title'' \<noteq> Some PyNone"
    and "\<forall>f. \<not> io_fails e f"
  shows "\<exists>r. fst (analyze e use_whisper url w) = Inr r
    \<and> (\<not> success r \<longrightarrow> (\<exists>message. error r = Some message \<and> message \<noteq> []))
    \<and> (extract_video_id url = None \<longrightarrow> \<not> success r \<and> error r = Some ''Invalid YouTube URL'')
    \<and> (\<forall>v err. extract_video_id url = Some v \<and> extract_info e url = Inl err
          \<longrightarrow> \<not> success r \<and> error r = Some (''Could not access video: '' @ err))
    \<and> (\<forall>v info t source. extract_video_id url = Some v \<and> extract_info e url = Inr info
            \<and> fst (get_transcript e use_whisper url v w) = Inr (t, source) \<and> \<not> truthy t
          \<longrightarrow> \<not> success r
              \<and> error r = Some (''Could not get transcript ('' @ source @ ''). Try with --whisper flag.''))"
proof (cases "extract_video_id url")
  case None
  with assms(1) show ?thesis
    by (simp add: analyze_invalid failure_fields)
next
  case (Some v)
  show ?thesis
  proof (cases "extract_info e url")
    case (Inl err)
    with assms(1) Some show ?thesis
      by (simp add: analyze_inaccessible failure_fields)
  next
    case (Inr info)
    with assms(2) have ti: "info ''title'' \<noteq> Some PyNone"
      by simp
    from get_transcript_no_exception [OF assms(3), of use_whisper url v w]
    obtain t source w1 where g: "get_transcript e use_whisper url v w = (Inr (t, source), w1)"
      by (cases "get_transcript e use_whisper url v w") auto
    show ?thesis
    proof (cases "truthy t")
      case False
      from analyze_no_transcript [OF assms(1) Some Inr ti g False] Some Inr g False show ?thesis
        by (simp add: failure_fields)
    next
      case True
      then obtain body where t: "t = Some body" "body \<noteq> []"
        by (cases t) auto
      from assms(3) have "\<not> io_fails e (SaveAnalysis v)" by simp
      from analyze_success [OF assms(1) Some Inr ti g [unfolded t(1)] t(2) this]
      obtain r where "analyze e use_whisper url w = (Inr r, w1)" "success r"
        by blast
      with Some Inr g True show ?thesis
        by simp
    qed
  qed
qed

theorem analyze_reports_failure_witness:
  "extract_video_id url_short = Some ''dQw4w9WgXcQ''
   \<and> fst (get_transcript env_silent False url_short ''dQw4w9WgXcQ'' world0) = Inr (None, ''download_failed'')
   \<and> map_sum id success (fst (analyze env_silent False url_short world0)) = Inr False
   \<and> map_sum id error (fst (analyze env_silent False url_short world0))
       = Inr (Some ''Could not get transcript (download_failed). Try with --whisper flag.'')"
proof -
  have o: "\<not> stdout_fails env_silent"
    by (simp add: env_silent_def env_manual_def)
  have h: "\<forall>f. \<not> io_fails env_silent f"
    by (simp add: env_silent_def env_manual_def)
  have i: "extract_info env_silent url_short
      = Inr (map_of [(''title'', Str ''A strategy''), (''uploader'', Str ''Trader'')])"
    by (simp add: env_silent_def env_manual_def)
  then have ti: "\<forall>info. extract_info env_silent url_short = Inr info \<longrightarrow> info ''title'' \<noteq> Some PyNone"
    by simp
  have g: "fst (get_transcript env_silent False url_short ''dQw4w9WgXcQ'' world0) = Inr (None, ''download_failed'')"
    by (simp add: silent_run)
  from analyze_reports_failure [OF o ti h, of False world0]
  obtain r where r: "fst (analyze env_silent False url_short world0) = Inr r"
    and all: "\<forall>v info t source. extract_video_id url_short = Some v \<and> extract_info env_silent url_short = Inr info
            \<and> fst (get_transcript env_silent False url_short v world0) = Inr (t, source) \<and> \<not> truthy t
          \<longrightarrow> \<not> success r
              \<and> error r = Some (''Could not get transcript ('' @ source @ ''). Try with --whisper flag.'')"
    by blast
  from all url_short_id i g
  have "\<not> success r \<and> error r = Some (''Could not get transcript ('' @ ''download_failed'' @ ''). Try with --whisper flag.'')"
    by (metis truthy.simps(1))
  with r url_short_id g show ?thesis by simp
qed

text \<open>
  Each of the three conditions is needed. For a video with manual captions, a valid URL
  and everything else in order, \<open>analyze\<close> raises when the report file cannot be
  written (\<open>save_analysis\<close> is called outside any \<open>try\<close>), when the title of the
  metadata is \<open>None\<close> (the slice of the title line), and when the standard output cannot
  take the first message.
\<close>

theorem analyze_save_exception_counterexample:
  "fst (analyze env_readonly False url_short world0) = Inl (OSError (SaveAnalysis ''dQw4w9WgXcQ''))
   \<and> fst (analyze env_untitled False url_short world0) = Inl TypeError
   \<and> fst (analyze env_ascii False url_short world0) = Inl StdoutError"
proof -
  have o: "\<not> stdout_fails env_readonly"
    by (simp add: env_readonly_def env_manual_def)
  have i: "extract_info env_readonly url_short
      = Inr (map_of [(''title'', Str ''A strategy''), (''uploader'', Str ''Trader'')])"
    by (simp add: env_readonly_def env_manual_def)
  have ti: "map_of [(''title'', Str ''A strategy''), (''uploader'', Str ''Trader'')] ''title'' \<noteq> Some PyNone"
    by simp
  have ne: "''Buy when price is up. Sell when price is down.'' \<noteq> []" by simp
  have f: "io_fails env_readonly (SaveAnalysis ''dQw4w9WgXcQ'')"
    by (simp add: env_readonly_def)
  have a: "fst (analyze env_readonly False url_short world0) = Inl (OSError (SaveAnalysis ''dQw4w9WgXcQ''))"
    by (simp add: analyze_save_fails [OF o url_short_id i ti readonly_run ne f])
  have o2: "\<not> stdout_fails env_untitled"
    by (simp add: env_untitled_def env_manual_def)
  have i2: "extract_info env_untitled url_short = Inr (map_of [(''title'', PyNone)])"
    by (simp add: env_untitled_def)
  have t2: "map_of [(''title'', PyNone)] ''title'' = Some PyNone"
    by simp
  have b: "fst (analyze env_untitled False url_short world0) = Inl TypeError"
    by (simp add: analyze_untitled [OF o2 url_short_id i2 t2])
  have c: "fst (analyze env_ascii False url_short world0) = Inl StdoutError"
    by (simp add: analyze_stdout env_ascii_def)
  from a b c show ?thesis by simp
qed

subsection \<open>Exit code\<close>

text \<open>
  The exit code follows from the result of \<open>analyze\<close>: an exception gives 1; a result
  gives 0 when JSON output is selected, whatever its \<open>success\<close> entry says, and
  otherwise 0 for a success and 1 for a failure.
\<close>

lemma exit_code_of_result:
  "fst (analyze e (arg_whisper a) (arg_url a) w) = Inr r \<Longrightarrow>
     exit_code e a w = (if arg_json a \<or> success r then 0 else 1)"
  by (simp add: exit_code_def main_def)

lemma exit_code_of_exception:
  "fst (analyze e (arg_whisper a) (arg_url a) w) = Inl x \<Longrightarrow> exit_code e a w = 1"
  by (simp add: exit_code_def main_def)

lemma not_a_video: "extract_video_id ''not a video'' = None"
  by code_simp

text \<open>
  C1 says that every run whose analysis fails exits with a non-zero code, with JSON
  output as with formatted output. The code at the input \<open>--json "not a video"\<close>, on a
  standard output that takes the messages: the analysis fails (success = False), and the
  exit code is 0; the same run without \<open>--json\<close> exits with 1.
\<close>

theorem main_json_failure_exits_zero:
  "\<not> stdout_fails e \<Longrightarrow>
     fst (analyze e False ''not a video'' w) = Inr (failure ''Invalid YouTube URL'' None)
     \<and> success (failure ''Invalid YouTube URL'' None) = False
     \<and> exit_code e args_json_invalid w = 0
     \<and> exit_code e (args_json_invalid \<lparr> arg_json := False \<rparr>) w = 1"
  by (simp add: analyze_def not_a_video failure_def exit_code_def main_def args_json_invalid_def)

theorem main_json_failure_exits_zero_witness:
  "stdout_fails env_manual = False
   \<and> fst (analyze env_manual False ''not a video'' world0) = Inr (failure ''Invalid YouTube URL'' None)
   \<and> success (failure ''Invalid YouTube URL'' None) = False
   \<and> exit_code env_manual args_json_invalid world0 = 0
   \<and> exit_code env_manual (args_json_invalid \<lparr> arg_json := False \<rparr>) world0 = 1"
proof -
  have o: "\<not> stdout_fails env_manual"
    by (simp add: env_manual_def)
  from main_json_failure_exits_zero [OF o, of world0] o show ?thesis
    by simp
qed

end
